theory Spec2Isabelle
  imports Complex_Main
begin

section \<open>Errors\<close>

text \<open>
  The exceptions the modelled code raises. Every raise of the source is a branch of the
  model that returns \<open>Inl\<close> of one of these.
\<close>

datatype error =
    AssertionError
  | ValueError
  | IndexError
  | AttributeError
  | ZeroDivisionError
  | TypeError
  | StopIteration
  | KeyError
  | RegexError
  | OverflowError
  | EngineError string

section \<open>Profiling mixin: \<open>AbstractDataHandler\<close> (arimo/data/__init__.py)\<close>

type_synonym col = string

text \<open>
  Modelled from the spec: the threshold container behind \<open>self._minNonNullProportion\<close>
  (its class is not among the sources). The code reads and writes its \<open>.default\<close>
  attribute and indexes it by a column; the container is taken to hold a default value and
  per-column entries, indexing giving the column's entry when there is one and the default
  otherwise. Proportions are Python floats that the code only compares, so they are
  modelled as reals.
\<close>

record threshold =
  default_value :: real
  per_col :: "col \<rightharpoonup> real"

definition threshold_item :: "threshold \<Rightarrow> col \<Rightarrow> real" where
  "threshold_item t c = (case per_col t c of Some v \<Rightarrow> v | None \<Rightarrow> default_value t)"

text \<open>
  The part of a handler's state that \<open>minNonNullProportion\<close> and \<open>suffNonNull\<close> touch:
  \<open>self._minNonNullProportion\<close>, \<open>self._cache.suffNonNull\<close> and
  \<open>self._cache.suffNonNullProportionThreshold\<close>.
\<close>

record profiler =
  p_minNonNullProportion :: threshold
  cache_suffNonNull :: "col \<rightharpoonup> bool"
  cache_suffNonNullProportionThreshold :: "col \<rightharpoonup> real"

text \<open>The getter: \<open>return self._minNonNullProportion.default\<close>.\<close>

definition minNonNullProportion :: "profiler \<Rightarrow> real" where
  "minNonNullProportion s = default_value (p_minNonNullProportion s)"

text \<open>
  The setter: only a value different from the current default is stored, and storing it
  replaces \<open>self._cache.suffNonNull\<close> by an empty dict.
\<close>

definition set_minNonNullProportion :: "real \<Rightarrow> profiler \<Rightarrow> profiler" where
  "set_minNonNullProportion v s =
     (if v \<noteq> default_value (p_minNonNullProportion s)
      then s\<lparr>p_minNonNullProportion := (p_minNonNullProportion s)\<lparr>default_value := v\<rparr>,
             cache_suffNonNull := Map.empty\<rparr>
      else s)"

text \<open>
  \<open>suffNonNull(col)\<close> for one column. \<open>nonNullProportion\<close> is abstract in this class
  (the subclass computes it); it is the parameter \<open>nnp\<close>. The result is the returned
  boolean and the state after the call.
\<close>

definition suffNonNull :: "(col \<Rightarrow> real) \<Rightarrow> col \<Rightarrow> profiler \<Rightarrow> bool \<times> profiler" where
  "suffNonNull nnp c s =
     (let minNNP = threshold_item (p_minNonNullProportion s) c;
          outdated =
            (case cache_suffNonNullProportionThreshold s c of
               Some t \<Rightarrow> t \<noteq> minNNP
             | None \<Rightarrow> False);
          s1 = s\<lparr>cache_suffNonNullProportionThreshold :=
                   (cache_suffNonNullProportionThreshold s)(c \<mapsto> minNNP)\<rparr>
      in case cache_suffNonNull s1 c of
           Some b \<Rightarrow>
             if outdated
             then (nnp c \<ge> minNNP, s1\<lparr>cache_suffNonNull := (cache_suffNonNull s1)(c \<mapsto> (nnp c \<ge> minNNP))\<rparr>)
             else (b, s1)
         | None \<Rightarrow>
             (nnp c \<ge> minNNP, s1\<lparr>cache_suffNonNull := (cache_suffNonNull s1)(c \<mapsto> (nnp c \<ge> minNNP))\<rparr>))"

text \<open>
  A handler is used through a sequence of threshold assignments and \<open>suffNonNull\<close>
  queries, starting with both caches empty.
\<close>

datatype profiler_op = SetMinNonNullProportion real | SuffNonNull col

fun profiler_step :: "(col \<Rightarrow> real) \<Rightarrow> profiler \<Rightarrow> profiler_op \<Rightarrow> profiler" where
  "profiler_step nnp s (SetMinNonNullProportion v) = set_minNonNullProportion v s"
| "profiler_step nnp s (SuffNonNull c) = snd (suffNonNull nnp c s)"

definition profiler_init :: "threshold \<Rightarrow> profiler" where
  "profiler_init t =
     \<lparr>p_minNonNullProportion = t, cache_suffNonNull = Map.empty,
      cache_suffNonNullProportionThreshold = Map.empty\<rparr>"

definition profiler_run :: "(col \<Rightarrow> real) \<Rightarrow> threshold \<Rightarrow> profiler_op list \<Rightarrow> profiler" where
  "profiler_run nnp t ops = foldl (profiler_step nnp) (profiler_init t) ops"

text \<open>
  The invariant of the two caches: every cached boolean was computed against the threshold
  recorded for its column.
\<close>

definition cache_consistent :: "(col \<Rightarrow> real) \<Rightarrow> profiler \<Rightarrow> bool" where
  "cache_consistent nnp s \<longleftrightarrow>
     (\<forall>c b. cache_suffNonNull s c = Some b \<longrightarrow>
        (\<exists>t. cache_suffNonNullProportionThreshold s c = Some t \<and> b = (nnp c \<ge> t)))"

section \<open>Python strings and paths\<close>

text \<open>
  Strings are byte lists; the string functions the code calls are written out for ASCII
  text, which is what paths, column names and queries are made of.
\<close>

definition startswith :: "string \<Rightarrow> string \<Rightarrow> bool" where
  "startswith s p \<longleftrightarrow> take (length p) s = p"

text \<open>\<open>p in s\<close> for strings: \<open>p\<close> occurs in \<open>s\<close> as a contiguous substring.\<close>

fun contains :: "string \<Rightarrow> string \<Rightarrow> bool" where
  "contains [] p = (p = [])"
| "contains (c # cs) p = (startswith (c # cs) p \<or> contains cs p)"

text \<open>\<open>s.count(ch)\<close> for a single character.\<close>

definition count_char :: "string \<Rightarrow> char \<Rightarrow> nat" where
  "count_char s ch = length (filter (\<lambda>c. c = ch) s)"

text \<open>\<open>os.path.join(a, b)\<close> of posixpath.\<close>

definition path_join :: "string \<Rightarrow> string \<Rightarrow> string" where
  "path_join a b =
     (if startswith b ''/'' then b
      else if a = [] \<or> last a = CHR ''/'' then a @ b
      else a @ ''/'' @ b)"

text \<open>
  \<open>os.path.dirname\<close> and \<open>os.path.basename\<close> of posixpath: the text before and after
  the last slash; \<open>dirname\<close> drops the trailing slashes of a head that is not all
  slashes.
\<close>

definition basename :: "string \<Rightarrow> string" where
  "basename p = rev (takeWhile (\<lambda>c. c \<noteq> CHR ''/'') (rev p))"

definition dirname :: "string \<Rightarrow> string" where
  "dirname p =
     (let head = rev (dropWhile (\<lambda>c. c \<noteq> CHR ''/'') (rev p))
      in if head \<noteq> [] \<and> (\<exists>c \<in> set head. c \<noteq> CHR ''/'')
         then rev (dropWhile (\<lambda>c. c = CHR ''/'') (rev head))
         else head)"

text \<open>Comparison of strings with \<open><\<close>: lexicographic on the character codes.\<close>

fun str_less :: "string \<Rightarrow> string \<Rightarrow> bool" where
  "str_less [] [] = False"
| "str_less [] (y # ys) = True"
| "str_less (x # xs) [] = False"
| "str_less (x # xs) (y # ys) =
     ((of_char x :: nat) < of_char y \<or> (x = y \<and> str_less xs ys))"

text \<open>\<open>s.lower()\<close> and \<open>s.strip()\<close>.\<close>

definition lower_char :: "char \<Rightarrow> char" where
  "lower_char c =
     (let n = (of_char c :: nat)
      in if 65 \<le> n \<and> n \<le> 90 then char_of (n + 32) else c)"

definition lower :: "string \<Rightarrow> string" where
  "lower s = map lower_char s"

definition is_space :: "char \<Rightarrow> bool" where
  "is_space c \<longleftrightarrow> (of_char c :: nat) \<in> {9, 10, 11, 12, 13, 32}"

definition strip :: "string \<Rightarrow> string" where
  "strip s = rev (dropWhile is_space (rev (dropWhile is_space s)))"

text \<open>\<open>s.strip('/')\<close>.\<close>

definition strip_slash :: "string \<Rightarrow> string" where
  "strip_slash s =
     rev (dropWhile (\<lambda>c. c = CHR ''/'') (rev (dropWhile (\<lambda>c. c = CHR ''/'') s)))"

text \<open>
  \<open>s.replace(old, new)\<close>: every occurrence of \<open>old\<close>, left to right and without
  overlaps; an empty \<open>old\<close> puts \<open>new\<close> before every character and at the end.
\<close>

function replace :: "string \<Rightarrow> string \<Rightarrow> string \<Rightarrow> string" where
  "replace s old new =
     (if old = [] then new @ concat (map (\<lambda>c. c # new) s)
      else case s of
             [] \<Rightarrow> []
           | c # cs \<Rightarrow>
               if startswith s old then new @ replace (drop (length old) s) old new
               else c # replace cs old new)"
  by pat_completeness auto
termination
  by (relation "measure (\<lambda>(s, old, new). length s)") auto

text \<open>
  \<open>re.search('{}=(.*?)/'.format(col), s)\<close> and its group 1. The column name goes into
  the pattern as it is. For a name without any of the characters that are special in a
  regular expression the pattern stands for the text \<open>col=\<close>, any characters but a
  newline, as few as possible, and a slash; the search then finds the leftmost occurrence
  of \<open>col=\<close> that is followed by a slash with no newline before it, and the group is the
  text up to that slash (\<open>search_key\<close>). For any other name the search is left to the
  regular-expression library (see \<open>re_search\<close> below).
\<close>

definition is_special :: "char \<Rightarrow> bool" where
  "is_special c \<longleftrightarrow> c \<in> set ''.^$*+?{}[]|()'' \<or> c = CHR 0x5C"

definition plain_name :: "string \<Rightarrow> bool" where
  "plain_name c \<longleftrightarrow> list_all (\<lambda>ch. \<not> is_special ch) c"

fun until_slash :: "string \<Rightarrow> string option" where
  "until_slash [] = None"
| "until_slash (c # cs) =
     (if c = CHR ''/'' then Some []
      else if c = CHR 0x0A then None
      else map_option ((#) c) (until_slash cs))"

fun search_key :: "string \<Rightarrow> string \<Rightarrow> string option" where
  "search_key k [] = None"
| "search_key k (c # cs) =
     (if startswith (c # cs) (k @ ''='')
      then (case until_slash (drop (length k + 1) (c # cs)) of
              Some v \<Rightarrow> Some v
            | None \<Rightarrow> search_key k cs)
      else search_key k cs)"

text \<open>
  \<open>urlparse(url)\<close> for a URL of the form \<open>scheme://netloc/path\<close> without query or
  fragment: \<open>netloc\<close> is the text between \<open>://\<close> and the next slash, \<open>path\<close> the rest.
\<close>

fun after_scheme :: "string \<Rightarrow> string" where
  "after_scheme [] = []"
| "after_scheme (c # cs) =
     (if startswith (c # cs) ''://'' then drop 3 (c # cs) else after_scheme cs)"

definition url_netloc :: "string \<Rightarrow> string" where
  "url_netloc u = takeWhile (\<lambda>c. c \<noteq> CHR ''/'') (after_scheme u)"

definition url_path :: "string \<Rightarrow> string" where
  "url_path u = dropWhile (\<lambda>c. c \<noteq> CHR ''/'') (after_scheme u)"

text \<open>
  Python's \<open>round\<close> of a float to an integer (round half to even; a float is the real
  number it stands for) and a slice \<open>xs[i:j]\<close> with
  integer bounds, negative ones counting from the end.
\<close>

definition py_round :: "real \<Rightarrow> int" where
  "py_round x =
     (let f = \<lfloor>x\<rfloor>; d = x - of_int f
      in if d < 1 / 2 then f
         else if 1 / 2 < d then f + 1
         else if even f then f else f + 1)"

definition slice_bound :: "nat \<Rightarrow> int \<Rightarrow> nat" where
  "slice_bound n i = (if i < 0 then nat (max 0 (int n + i)) else min n (nat i))"

definition py_slice :: "'a list \<Rightarrow> int \<Rightarrow> int \<Rightarrow> 'a list" where
  "py_slice xs i j =
     (let lo = slice_bound (length xs) i; hi = slice_bound (length xs) j
      in take (hi - lo) (drop lo xs))"

text \<open>Storing under a key of a dict, which keeps the position of a key already there.\<close>

fun dict_set :: "('k \<times> 'v) list \<Rightarrow> 'k \<Rightarrow> 'v \<Rightarrow> ('k \<times> 'v) list" where
  "dict_set [] k v = [(k, v)]"
| "dict_set ((k', v') # kvs) k v =
     (if k' = k then (k, v) # kvs else (k', v') # dict_set kvs k v)"

section \<open>Distributed frame: \<open>S3ParquetDistributedDataFrame\<close> (arimo/data/distributed_parquet.py)\<close>

subsection \<open>Transforms\<close>

text \<open>
  The entries of the two transform chains. An engine-native transform is a
  \<open>Transformer\<close> object (the SQL transformer of \<open>sql\<close> and \<open>fillna\<close>, the pipeline
  model of \<open>prep\<close>) or a function on engine frames (the lambdas the methods build, or a
  callable handed to \<open>transform\<close>). A local transform works on one partition read as a
  local table.
\<close>

datatype spark_op =
    SelectExpr "string list"
  | Select "string list"
  | SQLTransformer string
  | PipelineModel string
  | Filter string
  | WithColumn string string
  | Drop "string list"
  | GetItem "string list"
  | Callable string

datatype pandas_op =
    P_getitem "string list"
  | P_drop "string list"
  | P_fillna string
  | P_prep string string string
  | P_callable string

text \<open>\<open>isinstance(t, Transformer)\<close>.\<close>

fun is_Transformer :: "spark_op \<Rightarrow> bool" where
  "is_Transformer (SQLTransformer _) = True"
| "is_Transformer (PipelineModel _) = True"
| "is_Transformer _ = False"

subsection \<open>Collaborators\<close>

text \<open>
  A file copy made by \<open>_subset\<close>: a server-side copy inside a bucket (bucket, source
  key, target key) or a copy in the file system (source path, target path).
\<close>

datatype copy = S3Copy string string string | FsCopy string string

text \<open>
  What a search with a regular expression finds: nothing, or a match, of which group 1 is
  read; a group that took no part in the match is \<open>None\<close>.
\<close>

datatype found = NoMatch | Group "string option"

text \<open>
  The per-handle cache \<open>self._cache\<close> of the parent class: the row count (\<open>None\<close>
  until known), the column types, and the rest, of type \<open>'dc\<close>.
\<close>

record 'dc ddf_cache =
  c_nRows :: "nat option"
  c_type :: "(col \<times> string) list"
  c_rest :: 'dc

text \<open>
  What the code asks of the distributed engine, the columnar file reader, the random
  number generator and the modules of this repository that are not among the sources. The
  type \<open>'df\<close> is the engine's frame, \<open>'dc\<close> the part of the parent class's
  per-handle cache that is not modelled field by field.
  \<^item> \<open>arrow_pieces\<close>: the paths of the pieces that \<open>ParquetDataset\<close> finds under a path,
    given the copies made so far, or the error it raises;
  \<^item> \<open>spark_load\<close>, \<open>spark_count\<close>, \<open>spark_dtypes\<close>, \<open>spark_cast_str\<close>: loading a path,
    counting rows, the columns with their type names, casting a column to string;
  \<^item> \<open>spark_apply\<close>: applying an engine-native transform to a frame;
  \<open>spark_sql\<close>: running a query while the frame is registered under an alias;
  \<^item> \<open>uuid4\<close>: the text of the i-th random identifier drawn;
  \<open>random_sample\<close>, \<open>random_shuffle\<close>: the random choices;
  \<^item> \<open>fdiv\<close>, \<open>fmul\<close>, \<open>fadd\<close>, \<open>fpow\<close>: the true division \<open>x / y\<close>, the product, the sum
    and the power \<open>x ** y\<close> of the interpreter's floating-point numbers, and \<open>fsum\<close>: the
    built-in \<open>sum\<close> of a tuple of numbers. A float is the real number it stands for;
    the operations round, so none of them is the exact operation on reals;
  \<^item> \<open>re_search\<close>: \<open>re.search(pattern, text)\<close> for a pattern with characters of the
    regular-expression syntax in it: what it finds, or the error of a pattern that does
    not compile;
  \<^item> \<open>D_COL\<close>, \<open>TMP_DIR_PATH\<close>, \<open>BINARY_TYPE\<close>, \<open>REPR_SAMPLE_MIN_N_PIECES\<close>: constants
    defined outside the sources;
  \<^item> \<open>empty_rest\<close>: what the parent class's constructor puts into the per-handle cache
    besides the row count and the column types; \<open>inherit_cache\<close>: what
    \<open>_inheritCache\<close> makes of a handle's cache given another handle's;
    \<open>copy_reprSample\<close>, \<open>copy_colWidth\<close>, \<open>share_pieceADFs\<close>: the cache after its
    representative sample, column widths or piece handles are taken from another cache.
\<close>

record ('df, 'dc) env =
  arrow_pieces :: "copy list \<Rightarrow> string \<Rightarrow> error + string list"
  spark_load :: "copy list \<Rightarrow> string \<Rightarrow> error + 'df"
  spark_count :: "'df \<Rightarrow> nat"
  spark_dtypes :: "'df \<Rightarrow> (col \<times> string) list"
  spark_cast_str :: "col \<Rightarrow> 'df \<Rightarrow> 'df"
  spark_apply :: "spark_op \<Rightarrow> 'df \<Rightarrow> error + 'df"
  spark_sql :: "string \<Rightarrow> string \<Rightarrow> 'df \<Rightarrow> error + 'df"
  uuid4 :: "nat \<Rightarrow> string"
  random_sample :: "string list \<Rightarrow> nat \<Rightarrow> string list"
  random_shuffle :: "string list \<Rightarrow> string list"
  fdiv :: "real \<Rightarrow> real \<Rightarrow> real"
  fmul :: "real \<Rightarrow> real \<Rightarrow> real"
  fadd :: "real \<Rightarrow> real \<Rightarrow> real"
  fpow :: "real \<Rightarrow> real \<Rightarrow> real"
  fsum :: "real list \<Rightarrow> real"
  re_search :: "string \<Rightarrow> string \<Rightarrow> error + found"
  D_COL :: string
  TMP_DIR_PATH :: string
  BINARY_TYPE :: string
  REPR_SAMPLE_MIN_N_PIECES :: nat
  empty_rest :: 'dc
  inherit_cache :: "'dc ddf_cache \<Rightarrow> 'dc ddf_cache \<Rightarrow> 'dc ddf_cache"
  copy_reprSample :: "'dc \<Rightarrow> 'dc \<Rightarrow> 'dc"
  copy_colWidth :: "'dc \<Rightarrow> 'dc \<Rightarrow> 'dc"
  share_pieceADFs :: "'dc \<Rightarrow> 'dc \<Rightarrow> 'dc"

subsection \<open>The registry and the handle\<close>

text \<open>
  An entry of the class-wide registry \<open>_CACHE\<close>, keyed by path: the discovery metadata
  of a dataset. The first ten fields are written once the file reader has listed the
  pieces, the last two once the engine has loaded the path. \<open>pieceSubPaths\<close> is a Python
  set; it is kept as the list of its elements in the order the set is iterated.
  \<open>s3Client\<close> records whether a client exists.
\<close>

record arrow_meta =
  ce_path :: "string option"
  nPieces :: nat
  piecePaths :: "string list"
  pieceSubPaths :: "string list"
  partitionedByDateOnly :: bool
  s3Client :: bool
  s3Bucket :: string
  pathS3Key :: string
  tmpDirS3Key :: string
  tmpDirPath :: string

record 'df cache_entry = arrow_meta +
  srcSparkDF :: 'df
  srcNRows :: nat

text \<open>
  The registry holds a namespace per path: still empty (discovery never got to write
  into it), written in part (the file reader succeeded and the engine load failed), or
  complete.
\<close>

datatype 'df cache_state = Fresh | Partial arrow_meta | Loaded "'df cache_entry"

text \<open>The complete entry: what the file reader gave, the engine frame and its row count.\<close>

definition with_frame :: "arrow_meta \<Rightarrow> 'df \<Rightarrow> nat \<Rightarrow> 'df cache_entry" where
  "with_frame am df n =
     \<lparr>ce_path = ce_path am, nPieces = nPieces am, piecePaths = piecePaths am,
      pieceSubPaths = pieceSubPaths am, partitionedByDateOnly = partitionedByDateOnly am,
      s3Client = s3Client am, s3Bucket = s3Bucket am, pathS3Key = pathS3Key am,
      tmpDirS3Key = tmpDirS3Key am, tmpDirPath = tmpDirPath am,
      srcSparkDF = df, srcNRows = n\<rparr>"

text \<open>
  What lies outside a handle: the registry, the copies made so far and the number of random
  identifiers drawn.
\<close>

record 'df world =
  CACHE :: "string \<rightharpoonup> 'df cache_state"
  copies :: "copy list"
  uuids_drawn :: nat

text \<open>
  A handle: its path, the registry entry copied into it by
  \<open>self.__dict__.update(_cache)\<close>, the frames and the two chains, the alias, and the
  parent class's per-handle cache.
\<close>

record ('df, 'dc) handle =
  path :: string
  meta :: "'df cache_entry"
  initSparkDF :: 'df
  sparkDFTransforms :: "spark_op list"
  pandasDFTransforms :: "pandas_op list"
  sparkDF :: 'df
  h_alias :: "string option"
  cache :: "'dc ddf_cache"
  reprSampleMinNPieces :: nat

text \<open>
  The invariant the constructor establishes when the file reader lists distinct pieces
  below the path: \<open>nPieces\<close> counts the sub-paths, they are distinct, and there is at
  least one.
\<close>

definition handle_ok :: "('df, 'dc) handle \<Rightarrow> bool" where
  "handle_ok h \<longleftrightarrow>
     nPieces (meta h) = length (pieceSubPaths (meta h)) \<and>
     distinct (pieceSubPaths (meta h)) \<and>
     pieceSubPaths (meta h) \<noteq> []"

subsection \<open>Construction\<close>

text \<open>
  Lines 89 to 185 of the constructor: discovery of a path that has no usable registry
  entry. The file reader lists the pieces; a dataset without pieces is taken as the single
  file \<open>path\<close>. The engine then loads the path, binary columns are cast to string, and
  the rows are counted. The result says how far discovery got.
\<close>

datatype 'df discovery =
    ArrowFailed error
  | SparkFailed error arrow_meta
  | Discovered "'df cache_entry"

definition cast_binary :: "('df, 'dc) env \<Rightarrow> 'df \<Rightarrow> 'df" where
  "cast_binary e df =
     foldl (\<lambda>d (c, t). if t = BINARY_TYPE e then spark_cast_str e c d else d)
       df (spark_dtypes e df)"

definition discover_arrow :: "('df, 'dc) env \<Rightarrow> string \<Rightarrow> string list \<Rightarrow> arrow_meta" where
  "discover_arrow e p pieces =
     (let subs = remdups (map (drop (length p + 1)) pieces);
          s3 = startswith p ''s3'';
          bucket = (if s3 then url_netloc p else []);
          tmpKey = (if s3 then strip_slash (TMP_DIR_PATH e) else [])
      in \<lparr>ce_path = (if pieces = [] then Some (dirname p) else None),
          nPieces = (if pieces = [] then 1 else length pieces),
          piecePaths = (if pieces = [] then [dirname p] else remdups pieces),
          pieceSubPaths = (if pieces = [] then [basename p] else subs),
          partitionedByDateOnly =
            (case pieces of
               [] \<Rightarrow> False
             | q # _ \<Rightarrow>
                 startswith (drop (length p + 1) q) (D_COL e @ ''='') \<and>
                 count_char (drop (length p + 1) q) (CHR ''/'') = 1),
          s3Client = s3,
          s3Bucket = bucket,
          pathS3Key = (if s3 then drop 1 (url_path p) else []),
          tmpDirS3Key = tmpKey,
          tmpDirPath =
            (if s3 then path_join (''s3://'' @ bucket) tmpKey else TMP_DIR_PATH e)\<rparr>)"

definition discover :: "('df, 'dc) env \<Rightarrow> copy list \<Rightarrow> string \<Rightarrow> 'df discovery" where
  "discover e cps p =
     (case arrow_pieces e cps p of
        Inl err \<Rightarrow> ArrowFailed err
      | Inr pieces \<Rightarrow>
          (case spark_load e cps p of
             Inl err \<Rightarrow> SparkFailed err (discover_arrow e p pieces)
           | Inr df0 \<Rightarrow>
               let df = cast_binary e df0
               in Discovered (with_frame (discover_arrow e p pieces) df (spark_count e df))))"

text \<open>
  Applying a chain of engine-native transforms in order; the first one that raises ends
  the loop with its error.
\<close>

fun apply_transforms :: "('df, 'dc) env \<Rightarrow> spark_op list \<Rightarrow> 'df \<Rightarrow> error + 'df" where
  "apply_transforms e [] df = Inr df"
| "apply_transforms e (t # ts) df =
     (case spark_apply e t df of
        Inl err \<Rightarrow> Inl err
      | Inr df' \<Rightarrow> apply_transforms e ts df')"

text \<open>
  The arguments of the constructor. \<open>a_nRows\<close> is the keyword \<open>nRows\<close>: absent, or
  given with a count or with \<open>None\<close>.
\<close>

record 'df init_args =
  a_path :: string
  a_reCache :: bool
  a_initSparkDF :: "'df option"
  a_sparkDFTransforms :: "spark_op list"
  a_sparkDF :: "'df option"
  a_pandasDFTransforms :: "pandas_op list"
  a_reprSampleMinNPieces :: "nat option"
  a_alias :: "string option"
  a_nRows :: "nat option option"

text \<open>
  The second half of the constructor, from \<open>self.__dict__.update(_cache)\<close> on. The parent
  class's constructor is not among the sources; of it the model keeps that it stores the
  frame, the row count it is given and the types of the frame's columns. Without
  \<open>_initSparkDF\<close> the parent is called with the source row count, and a keyword
  \<open>nRows\<close> on top of it is a duplicate keyword argument.
\<close>

definition init_from_entry ::
  "('df, 'dc) env \<Rightarrow> 'df init_args \<Rightarrow> 'df cache_entry \<Rightarrow> error + ('df, 'dc) handle"
where
  "init_from_entry e a ce =
     (if a_initSparkDF a = None \<and> a_nRows a \<noteq> None then Inl TypeError
      else
        let df0 = (case a_initSparkDF a of Some d \<Rightarrow> d | None \<Rightarrow> srcSparkDF ce);
            nr = (case a_initSparkDF a of
                    Some d \<Rightarrow> (case a_nRows a of Some r \<Rightarrow> r | None \<Rightarrow> None)
                  | None \<Rightarrow> Some (srcNRows ce));
            res = (case a_sparkDF a of
                     Some d \<Rightarrow> Inr (d, True)
                   | None \<Rightarrow>
                       if a_sparkDFTransforms a \<noteq> []
                       then (case apply_transforms e (a_sparkDFTransforms a) df0 of
                               Inl err \<Rightarrow> Inl err
                             | Inr d \<Rightarrow> Inr (d, True))
                       else Inr (df0, False))
        in case res of
             Inl err \<Rightarrow> Inl err
           | Inr (df, recacheTypes) \<Rightarrow>
               Inr \<lparr>path = (case ce_path ce of Some p \<Rightarrow> p | None \<Rightarrow> a_path a),
                    meta = ce,
                    initSparkDF = df0,
                    sparkDFTransforms = a_sparkDFTransforms a,
                    pandasDFTransforms = a_pandasDFTransforms a,
                    sparkDF = df,
                    h_alias = (case a_alias a of
                               Some x \<Rightarrow> if x \<noteq> [] then Some x else None
                             | None \<Rightarrow> None),
                    cache =
                      \<lparr>c_nRows = nr,
                       c_type =
                         (if recacheTypes then spark_dtypes e df else spark_dtypes e df0),
                       c_rest = empty_rest e\<rparr>,
                    reprSampleMinNPieces =
                      min (case a_reprSampleMinNPieces a of
                             Some m \<Rightarrow> m
                           | None \<Rightarrow> REPR_SAMPLE_MIN_N_PIECES e)
                          (nPieces ce)\<rparr>)"

text \<open>
  \<open>__init__\<close>. A registry entry is reused unless \<open>reCache\<close> is set; a reused entry that
  is not empty must hold a loaded engine frame; an empty or new one is filled by
  discovery. The result is the handle or the error raised, and the world after the
  call.
\<close>

definition init ::
  "('df, 'dc) env \<Rightarrow> 'df init_args \<Rightarrow> 'df world \<Rightarrow> (error + ('df, 'dc) handle) \<times> 'df world"
where
  "init e a w =
     (let p = a_path a;
          st = (if \<not> a_reCache a
                then (case CACHE w p of Some s \<Rightarrow> s | None \<Rightarrow> Fresh)
                else Fresh)
      in case st of
           Loaded ce \<Rightarrow> (init_from_entry e a ce, w)
         | Partial am \<Rightarrow> (Inl AssertionError, w)
         | Fresh \<Rightarrow>
             (case discover e (copies w) p of
                ArrowFailed err \<Rightarrow> (Inl err, w\<lparr>CACHE := (CACHE w)(p \<mapsto> Fresh)\<rparr>)
              | SparkFailed err am \<Rightarrow> (Inl err, w\<lparr>CACHE := (CACHE w)(p \<mapsto> Partial am)\<rparr>)
              | Discovered ce \<Rightarrow>
                  (init_from_entry e a ce, w\<lparr>CACHE := (CACHE w)(p \<mapsto> Loaded ce)\<rparr>)))"

text \<open>
  The standard keyword arguments every method passes on; of them the alias is modelled.
  An alias equal to the handle's own is dropped.
\<close>

definition std_alias :: "('df, 'dc) handle \<Rightarrow> string option \<Rightarrow> string option" where
  "std_alias h a =
     (case a of
        Some x \<Rightarrow> if x \<noteq> [] \<and> h_alias h = Some x then None else Some x
      | None \<Rightarrow> None)"

subsection \<open>Partition subsetting\<close>

text \<open>
  \<open>_subset(*pieceSubPaths)\<close>. Without sub-paths, or with as many as the handle has
  pieces, the handle itself is returned. Otherwise two or more pieces are copied one by
  one below a fresh directory (inside the bucket, or in the file system), a single piece is
  addressed where it lies, and a new handle is constructed over that location with the same
  two chains. The copies themselves are taken to succeed.
\<close>

definition do_subset ::
  "('df, 'dc) env \<Rightarrow> ('df, 'dc) handle \<Rightarrow> string list \<Rightarrow> string option \<Rightarrow> 'df world \<Rightarrow>
   (error + ('df, 'dc) handle) \<times> 'df world"
where
  "do_subset e h ps al w =
     (if ps = [] then (Inr h, w)
      else if \<not> set ps \<subseteq> set (pieceSubPaths (meta h)) then (Inl AssertionError, w)
      else if length ps = nPieces (meta h) then (Inr h, w)
      else
        let m = meta h;
            u = uuid4 e (uuids_drawn w);
            subsetDirS3Key = path_join (tmpDirS3Key m) u;
            (subsetPath, cps, drawn) =
              (if 1 < length ps
               then if s3Client m
                    then (path_join (''s3://'' @ s3Bucket m) subsetDirS3Key,
                          map (\<lambda>p. S3Copy (s3Bucket m) (path_join (pathS3Key m) p)
                                      (path_join subsetDirS3Key p)) ps,
                          1)
                    else (path_join (tmpDirPath m) u,
                          map (\<lambda>p. FsCopy (path_join (path h) p)
                                      (path_join (path_join (tmpDirPath m) u) p)) ps,
                          1)
               else (if 1 < nPieces m then path_join (path h) (hd ps) else path h, [], 0));
            w1 = w\<lparr>copies := copies w @ cps, uuids_drawn := uuids_drawn w + drawn\<rparr>
        in case init e
                  \<lparr>a_path = subsetPath, a_reCache = False, a_initSparkDF = None,
                   a_sparkDFTransforms = sparkDFTransforms h, a_sparkDF = None,
                   a_pandasDFTransforms = pandasDFTransforms h,
                   a_reprSampleMinNPieces = None, a_alias = std_alias h al,
                   a_nRows = None\<rparr> w1 of
             (Inl err, w2) \<Rightarrow> (Inl err, w2)
           | (Inr adf, w2) \<Rightarrow>
               (Inr (adf\<lparr>cache := (cache adf)\<lparr>c_rest :=
                       copy_colWidth e (c_rest (cache adf)) (c_rest (cache h))\<rparr>\<rparr>), w2))"

subsection \<open>Transform application\<close>

text \<open>
  The argument \<open>sparkDFTransform\<close> of \<open>transform\<close> is a list of transforms or a single
  one, and so is \<open>pandasDFTransform\<close>.
\<close>

datatype spark_arg = TList "spark_op list" | TOne spark_op

datatype pandas_arg = PList "pandas_op list" | POne pandas_op

text \<open>
  The arguments with which \<open>transform\<close> constructs the new handle: the same path, both
  chains extended, the resulting frame, and the cached row count when it is inherited.
\<close>

definition transform_args ::
  "('df, 'dc) handle \<Rightarrow> spark_op list \<Rightarrow> pandas_op list \<Rightarrow> 'df \<Rightarrow> bool \<Rightarrow> string option \<Rightarrow>
   'df init_args"
where
  "transform_args h additionalSparkDFTransforms additionalPandasDFTransforms d inheritNRows al =
     \<lparr>a_path = path h, a_reCache = False, a_initSparkDF = Some (initSparkDF h),
      a_sparkDFTransforms = sparkDFTransforms h @ additionalSparkDFTransforms,
      a_sparkDF = Some d,
      a_pandasDFTransforms = pandasDFTransforms h @ additionalPandasDFTransforms,
      a_reprSampleMinNPieces = None, a_alias = std_alias h al,
      a_nRows = Some (if inheritNRows then c_nRows (cache h) else None)\<rparr>"

text \<open>
  \<open>transform\<close>. \<open>ic\<close> and \<open>inr\<close> are the keywords \<open>inheritCache\<close> and
  \<open>inheritNRows\<close> when given, \<open>sdf\<close> the keyword \<open>_sparkDF\<close>. Unless the resulting frame
  is handed in, the additional transforms are applied to the current frame, and an error
  of the engine is raised again. The new handle is constructed, its cache inherits from the
  original's when \<open>inheritCache\<close> holds, and it shares the original's piece handles.
\<close>

definition transform ::
  "('df, 'dc) env \<Rightarrow> ('df, 'dc) handle \<Rightarrow> spark_arg \<Rightarrow> 'df option \<Rightarrow> pandas_arg \<Rightarrow>
   bool option \<Rightarrow> bool option \<Rightarrow> string option \<Rightarrow> 'df world \<Rightarrow>
   (error + ('df, 'dc) handle) \<times> 'df world"
where
  "transform e h sparkDFTransform sdf pandasDFTransform ic inr al w =
     (let ic0 = (case ic of Some b \<Rightarrow> b | None \<Rightarrow> False);
          additionalSparkDFTransforms =
            (case sparkDFTransform of TList ts \<Rightarrow> ts | TOne t \<Rightarrow> [t]);
          inheritCache =
            (case sparkDFTransform of
               TList ts \<Rightarrow> ic0 \<or> list_all is_Transformer ts
             | TOne t \<Rightarrow> if is_Transformer t then True else ic0);
          additionalPandasDFTransforms =
            (case pandasDFTransform of PList ps \<Rightarrow> ps | POne p \<Rightarrow> [p]);
          inheritNRows = (case inr of Some b \<Rightarrow> b | None \<Rightarrow> inheritCache);
          frame =
            (case sdf of
               Some d \<Rightarrow> Inr d
             | None \<Rightarrow> apply_transforms e additionalSparkDFTransforms (sparkDF h))
      in case frame of
           Inl err \<Rightarrow> (Inl err, w)
         | Inr d \<Rightarrow>
             (case init e (transform_args h additionalSparkDFTransforms
                             additionalPandasDFTransforms d inheritNRows al) w of
                (Inl err, w1) \<Rightarrow> (Inl err, w1)
              | (Inr arrowDDF, w1) \<Rightarrow>
                  let c1 = (if inheritCache then inherit_cache e (cache arrowDDF) (cache h)
                            else cache arrowDDF);
                      c2 = c1\<lparr>c_rest := share_pieceADFs e (c_rest c1) (c_rest (cache h))\<rparr>
                  in (Inr (arrowDDF\<lparr>cache := c2\<rparr>), w1)))"

text \<open>
  An expression handed to \<open>select\<close> is a string or an engine column object. The test
  \<open>'*' in exprs\<close> compares the items in turn with \<open>'*'\<close>; comparing a column object
  yields a column expression, which has no truth value.
\<close>

datatype expr = StrExpr string | ColExpr string

fun expr_text :: "expr \<Rightarrow> string" where
  "expr_text (StrExpr s) = s"
| "expr_text (ColExpr s) = s"

fun is_str :: "expr \<Rightarrow> bool" where
  "is_str (StrExpr _) = True"
| "is_str (ColExpr _) = False"

fun star_in :: "expr list \<Rightarrow> error + bool" where
  "star_in [] = Inr False"
| "star_in (StrExpr s # es) = (if s = ''*'' then Inr True else star_in es)"
| "star_in (ColExpr _ # es) = Inl ValueError"

text \<open>
  \<open>select\<close>: without expressions it selects \<open>'*'\<close>. Expressions that are all
  strings go to the engine's \<open>selectExpr\<close>, others to its \<open>select\<close>.
\<close>

definition select_op :: "expr list \<Rightarrow> spark_op" where
  "select_op exprs =
     (if list_all is_str exprs then SelectExpr (map expr_text exprs)
      else Select (map expr_text exprs))"

definition select ::
  "('df, 'dc) env \<Rightarrow> ('df, 'dc) handle \<Rightarrow> expr list \<Rightarrow> bool option \<Rightarrow> bool option \<Rightarrow>
   string option \<Rightarrow> 'df world \<Rightarrow> (error + ('df, 'dc) handle) \<times> 'df world"
where
  "select e h exprs ic inr al w =
     (let exprs' = (if exprs = [] then [StrExpr ''*''] else exprs);
          dflt = (if exprs = [] then Inr True else star_in exprs)
      in case dflt of
           Inl err \<Rightarrow> (Inl err, w)
         | Inr d \<Rightarrow>
             let inheritCache = (case ic of Some b \<Rightarrow> b | None \<Rightarrow> d);
                 inheritNRows = (case inr of Some b \<Rightarrow> b | None \<Rightarrow> inheritCache)
             in transform e h (TOne (select_op exprs')) None (PList [])
                  (Some inheritCache) (Some inheritNRows) al w)"

text \<open>
  \<open>sql\<close>. The handle's alias is set to the temporary alias for the query and set back
  afterwards, also when something is raised; the third component of the result is the
  handle itself after the call.
\<close>

definition sql_inheritCache :: "string \<Rightarrow> string \<Rightarrow> bool" where
  "sql_inheritCache lq tempAlias \<longleftrightarrow>
     (contains lq ''select *'' \<or> contains lq (''select '' @ lower tempAlias @ ''.*'')) \<and>
     \<not> contains lq ''where'' \<and> \<not> contains lq ''join'' \<and> \<not> contains lq ''union''"

definition sql_statement :: "string \<Rightarrow> string \<Rightarrow> string" where
  "sql_statement query tempAlias =
     replace (replace (replace query ('' '' @ tempAlias) '' __THIS__'')
                (tempAlias @ '' '') ''__THIS__ '')
       (tempAlias @ ''.'') ''__THIS__.''"

definition sql ::
  "('df, 'dc) env \<Rightarrow> ('df, 'dc) handle \<Rightarrow> string \<Rightarrow> string \<Rightarrow> bool option \<Rightarrow> bool option \<Rightarrow>
   string option \<Rightarrow> 'df world \<Rightarrow>
   (error + ('df, 'dc) handle) \<times> ('df, 'dc) handle \<times> 'df world"
where
  "sql e h query tempAlias ic inr al w =
     (let origAlias = h_alias h;
          h1 = h\<lparr>h_alias := Some tempAlias\<rparr>;
          lq = lower (strip query)
      in if \<not> startswith lq ''select'' then (Inl AssertionError, h1\<lparr>h_alias := origAlias\<rparr>, w)
         else case spark_sql e query tempAlias (sparkDF h1) of
                Inl err \<Rightarrow> (Inl err, h1\<lparr>h_alias := origAlias\<rparr>, w)
              | Inr d \<Rightarrow>
                  let h2 = h1\<lparr>h_alias := origAlias\<rparr>;
                      inheritCache =
                        (case ic of Some b \<Rightarrow> b | None \<Rightarrow> sql_inheritCache lq tempAlias);
                      inheritNRows = (case inr of Some b \<Rightarrow> b | None \<Rightarrow> inheritCache);
                      (r, w1) = transform e h2 (TOne (SQLTransformer (sql_statement query tempAlias)))
                                  (Some d) (PList []) (Some inheritCache) (Some inheritNRows) al w
                  in (r, h2, w1))"









subsection \<open>Calls in place\<close>




subsection \<open>Filtering by partition keys\<close>

text \<open>
  A filter criterion is a tuple that starts with a column: \<open>(col, values)\<close>,
  \<open>(col, fromVal, toVal)\<close> with either bound possibly \<open>None\<close>, or a tuple of another
  length. The values are kept as the strings \<open>str\<close> makes of them.
\<close>

datatype criterion =
    InSet col "string list"
  | InRange col "string option" "string option"
  | OtherLen col

fun crit_col :: "criterion \<Rightarrow> col" where
  "crit_col (InSet c _) = c"
| "crit_col (InRange c _ _) = c"
| "crit_col (OtherLen c) = c"

type_synonym criteria = "(col \<times> string option \<times> string option \<times> string list option) list"

text \<open>
  The first loop: a criterion is taken up only when \<open>col=\<close> occurs in the sampled
  sub-path; it is then stored in the dict \<open>filterCriteria\<close> under its column, and a
  tuple of the wrong length raises.
\<close>

fun collect_criteria :: "string \<Rightarrow> criterion list \<Rightarrow> criteria \<Rightarrow> error + criteria" where
  "collect_criteria smp [] fc = Inr fc"
| "collect_criteria smp (t # ts) fc =
     (if contains smp (crit_col t @ ''='')
      then (case t of
              InSet c vs \<Rightarrow> collect_criteria smp ts (dict_set fc c (None, None, Some vs))
            | InRange c f u \<Rightarrow> collect_criteria smp ts (dict_set fc c (f, u, None))
            | OtherLen c \<Rightarrow> Inl ValueError)
      else collect_criteria smp ts fc)"

text \<open>
  What \<open>re.search('{}=(.*?)/'.format(col), pieceSubPath)\<close> finds. For a column name
  without special characters that is the search for \<open>col=\<close> as text; any other name is
  left to the library, where group 1 may be a group of the name's own and may have taken
  no part in the match.
\<close>

definition re_search_key :: "('df, 'dc) env \<Rightarrow> col \<Rightarrow> string \<Rightarrow> error + found" where
  "re_search_key e c p =
     (if plain_name c
      then (case search_key c p of Some v \<Rightarrow> Inr (Group (Some v)) | None \<Rightarrow> Inr NoMatch)
      else re_search e (c @ ''=(.*?)/'') p)"

text \<open>
  The check of one sub-path against the criteria in turn. The value of a key is read with
  the regular expression, and a key the expression does not find raises, for \<open>None\<close> has
  no \<open>group\<close>. A value that is \<open>None\<close> cannot be compared with a bound, and is in no
  set. The first criterion that is not met ends the check.
\<close>

fun chk_piece :: "('df, 'dc) env \<Rightarrow> criteria \<Rightarrow> string \<Rightarrow> error + bool" where
  "chk_piece e [] p = Inr True"
| "chk_piece e ((c, fromVal, toVal, inSet) # fc) p =
     (case re_search_key e c p of
        Inl err \<Rightarrow> Inl err
      | Inr NoMatch \<Rightarrow> Inl AttributeError
      | Inr (Group None) \<Rightarrow>
          if fromVal \<noteq> None \<or> toVal \<noteq> None then Inl TypeError
          else if inSet \<noteq> None then Inr False
          else chk_piece e fc p
      | Inr (Group (Some v)) \<Rightarrow>
          if (case fromVal of Some f \<Rightarrow> str_less v f | None \<Rightarrow> False) \<or>
             (case toVal of Some u \<Rightarrow> str_less u v | None \<Rightarrow> False) \<or>
             (case inSet of Some vs \<Rightarrow> v \<notin> set vs | None \<Rightarrow> False)
          then Inr False
          else chk_piece e fc p)"

fun chk_pieces :: "('df, 'dc) env \<Rightarrow> criteria \<Rightarrow> string list \<Rightarrow> error + string list" where
  "chk_pieces e fc [] = Inr []"
| "chk_pieces e fc (p # ps) =
     (case chk_piece e fc p of
        Inl err \<Rightarrow> Inl err
      | Inr b \<Rightarrow>
          (case chk_pieces e fc ps of
             Inl err \<Rightarrow> Inl err
           | Inr qs \<Rightarrow> Inr (if b then p # qs else qs)))"

text \<open>
  \<open>filterByPartitionKeys\<close>. The sampled sub-path is the first one the set yields. With
  criteria taken up, the sub-paths that meet them are handed to \<open>_subset\<close>, and none
  meeting them fails the assertion; with none taken up the handle itself is returned.
\<close>

definition filterByPartitionKeys ::
  "('df, 'dc) env \<Rightarrow> ('df, 'dc) handle \<Rightarrow> criterion list \<Rightarrow> string option \<Rightarrow> 'df world \<Rightarrow>
   (error + ('df, 'dc) handle) \<times> 'df world"
where
  "filterByPartitionKeys e h filterCriteriaTuples al w =
     (case pieceSubPaths (meta h) of
        [] \<Rightarrow> (Inl StopIteration, w)
      | smp # _ \<Rightarrow>
          (case collect_criteria smp filterCriteriaTuples [] of
             Inl err \<Rightarrow> (Inl err, w)
           | Inr filterCriteria \<Rightarrow>
               if filterCriteria \<noteq> []
               then (case chk_pieces e filterCriteria (pieceSubPaths (meta h)) of
                       Inl err \<Rightarrow> (Inl err, w)
                     | Inr ps \<Rightarrow>
                         if ps = [] then (Inl AssertionError, w)
                         else do_subset e h ps al w)
               else (Inr h, w)))"

subsection \<open>Sampling\<close>

text \<open>
  Modelled from the spec: the property \<open>nRows\<close> of the parent class, which is not among
  the sources: the row count, lazily computed, that is the cached count when there is one
  and the engine's count of the current frame otherwise.
\<close>

definition nRows :: "('df, 'dc) env \<Rightarrow> ('df, 'dc) handle \<Rightarrow> nat" where
  "nRows e h = (case c_nRows (cache h) of Some r \<Rightarrow> r | None \<Rightarrow> spark_count e (sparkDF h))"

text \<open>
  Modelled from the spec: the schema of a handle (column names and types), which the
  parent class, not among the sources, reads off the current engine frame.
\<close>

definition dtypes :: "('df, 'dc) env \<Rightarrow> ('df, 'dc) handle \<Rightarrow> (col \<times> string) list" where
  "dtypes e h = spark_dtypes e (sparkDF h)"

definition DEFAULT_REPR_SAMPLE_SIZE :: int where
  "DEFAULT_REPR_SAMPLE_SIZE = 10 ^ 6"

text \<open>
  The number of pieces to sample, lines 897 to 903. The division is the true division of
  two integers and gives a float, the power is a float power and the product a float
  product; \<open>math.ceil\<close> then gives the least integer that is not below the float. A row
  count of zero is a division by zero, and the power of a negative quotient is a complex
  number, which \<open>math.ceil\<close> rejects. \<open>maxNPieces\<close> caps the number only when it is
  given and not zero.
\<close>

definition sampleNPieces ::
  "('df, 'dc) env \<Rightarrow> int \<Rightarrow> nat \<Rightarrow> nat \<Rightarrow> int \<Rightarrow> int option \<Rightarrow> error + int"
where
  "sampleNPieces e n nr np minNPieces maxNPieces =
     (if nr = 0 then Inl ZeroDivisionError
      else
        let q = fdiv e (real_of_int (min n (int nr))) (real nr)
        in if q < 0 then Inl TypeError
           else
             let s = max \<lceil>fmul e (fpow e q (1 / 2)) (real np)\<rceil> minNPieces
             in Inr (case maxNPieces of
                       Some m \<Rightarrow> if m \<noteq> 0 then min s m else s
                     | None \<Rightarrow> s))"

text \<open>
  The pieces to read, lines 905 to 910: a random sample of that many sub-paths when the
  number is below \<open>nPieces\<close>, every sub-path otherwise. \<open>random.sample\<close> rejects a
  negative size and one above the population.
\<close>

definition samplePieceSubPaths ::
  "('df, 'dc) env \<Rightarrow> ('df, 'dc) handle \<Rightarrow> int \<Rightarrow> (error + string list)"
where
  "samplePieceSubPaths e h s =
     (if s < int (nPieces (meta h))
      then if s < 0 \<or> length (pieceSubPaths (meta h)) < nat s then Inl ValueError
           else Inr (random_sample e (pieceSubPaths (meta h)) (nat s))
      else Inr (pieceSubPaths (meta h)))"

text \<open>
  The loop over the chosen pieces, lines 916 to 928. The body of the \<open>try\<close> builds the
  piece's handle and draws its sub-sample with the parent class's \<open>sample\<close>; it is the
  fallible step \<open>piece_sample\<close>, given the sub-path and the per-piece sample size
  \<open>max(n / sampleNPieces, 1)\<close>, a true division again. An error is caught and printed
  with the sub-path. The result is the list \<open>adfs\<close> and the messages printed.
\<close>

fun sample_loop ::
  "(string \<Rightarrow> error + 'smp) \<Rightarrow> string list \<Rightarrow> 'smp list \<times> (string \<times> error) list"
where
  "sample_loop body [] = ([], [])"
| "sample_loop body (p # ps) =
     (let (adfs, msgs) = sample_loop body ps
      in case body p of
           Inl err \<Rightarrow> (adfs, (p, err) # msgs)
         | Inr adf \<Rightarrow> (adf # adfs, msgs))"

definition piece_body ::
  "('df, 'dc) env \<Rightarrow> (string \<Rightarrow> real \<Rightarrow> error + 'smp) \<Rightarrow> int \<Rightarrow> int \<Rightarrow> string \<Rightarrow>
   error + 'smp"
where
  "piece_body e piece_sample n s p =
     (if s = 0 then Inl ZeroDivisionError
      else piece_sample p (max (fdiv e (real_of_int n) (real_of_int s)) 1))"

text \<open>
  \<open>sample\<close>. The number of pieces and the pieces chosen are worked out first
  (\<open>chosen_pieces\<close>). \<open>unionAllCols\<close> belongs to the parent class and is a parameter. After the
  union, \<open>adfs[0]\<close> is read for its column widths, which raises when no piece
  succeeded. The result is the sample or the error raised, and the messages printed.
\<close>

definition chosen_pieces ::
  "('df, 'dc) env \<Rightarrow> ('df, 'dc) handle \<Rightarrow> int \<Rightarrow> int \<Rightarrow> int option \<Rightarrow>
   error + int \<times> string list"
where
  "chosen_pieces e h n minNPieces maxNPieces =
     (case sampleNPieces e n (nRows e h) (nPieces (meta h)) minNPieces maxNPieces of
        Inl err \<Rightarrow> Inl err
      | Inr s \<Rightarrow>
          (case samplePieceSubPaths e h s of
             Inl err \<Rightarrow> Inl err
           | Inr ps \<Rightarrow> Inr (s, ps)))"

definition sample ::
  "('df, 'dc) env \<Rightarrow> ('df, 'dc) handle \<Rightarrow> (string \<Rightarrow> real \<Rightarrow> error + 'smp) \<Rightarrow>
   ('smp list \<Rightarrow> error + 'smp) \<Rightarrow> int option \<Rightarrow> int option \<Rightarrow> int option \<Rightarrow>
   (error + 'smp) \<times> (string \<times> error) list"
where
  "sample e h piece_sample unionAllCols n_kw minNPieces_kw maxNPieces =
     (let n = (case n_kw of Some k \<Rightarrow> k | None \<Rightarrow> DEFAULT_REPR_SAMPLE_SIZE);
          minNPieces =
            (case minNPieces_kw of Some k \<Rightarrow> k | None \<Rightarrow> int (reprSampleMinNPieces h))
      in case chosen_pieces e h n minNPieces maxNPieces of
           Inl err \<Rightarrow> (Inl err, [])
         | Inr (s, ps) \<Rightarrow>
             let (adfs, msgs) = sample_loop (piece_body e piece_sample n s) ps
             in case unionAllCols adfs of
                  Inl err \<Rightarrow> (Inl err, msgs)
                | Inr adf \<Rightarrow> if adfs = [] then (Inl IndexError, msgs) else (Inr adf, msgs))"

subsection \<open>Splitting\<close>

text \<open>
  \<open>split(*weights)\<close> returns the handle itself, or a list of handles. The weights are
  numbers. \<open>numpy.cumsum\<close> adds them up one after the other, the built-in \<open>sum\<close> gives
  the total, and each cumulative weight is divided by the total and multiplied by the
  number of pieces in floating point before it is rounded. A total of zero makes the
  cumulative weights infinite or not a number, which the conversion to an integer
  rejects.
\<close>

datatype ('df, 'dc) split_result =
    SplitSelf "('df, 'dc) handle"
  | SplitList "('df, 'dc) handle list"

fun cumsum :: "('df, 'dc) env \<Rightarrow> real \<Rightarrow> real list \<Rightarrow> real list" where
  "cumsum e acc [] = []"
| "cumsum e acc (x # xs) = fadd e acc x # cumsum e (fadd e acc x) xs"

definition cumuWeights :: "('df, 'dc) env \<Rightarrow> real list \<Rightarrow> real list" where
  "cumuWeights e weights =
     (case weights of
        [] \<Rightarrow> []
      | x # xs \<Rightarrow> map (\<lambda>c. fdiv e c (fsum e weights)) (x # cumsum e x xs))"

definition cumuIndices :: "('df, 'dc) env \<Rightarrow> real list \<Rightarrow> nat \<Rightarrow> int list" where
  "cumuIndices e weights np =
     0 # map (\<lambda>c. py_round (fmul e c (real np))) (cumuWeights e weights)"

definition split_slices ::
  "('df, 'dc) env \<Rightarrow> string list \<Rightarrow> real list \<Rightarrow> nat \<Rightarrow> string list list"
where
  "split_slices e shuffled weights np =
     map (\<lambda>i. py_slice shuffled (cumuIndices e weights np ! i) (cumuIndices e weights np ! Suc i))
       [0..<length weights]"

fun subset_each ::
  "('df, 'dc) env \<Rightarrow> ('df, 'dc) handle \<Rightarrow> string list list \<Rightarrow> 'df world \<Rightarrow>
   (error + ('df, 'dc) handle list) \<times> 'df world"
where
  "subset_each e h [] w = (Inr [], w)"
| "subset_each e h (ps # pss) w =
     (case do_subset e h ps None w of
        (Inl err, w1) \<Rightarrow> (Inl err, w1)
      | (Inr adf, w1) \<Rightarrow>
          (case subset_each e h pss w1 of
             (Inl err, w2) \<Rightarrow> (Inl err, w2)
           | (Inr adfs, w2) \<Rightarrow> (Inr (adf # adfs), w2)))"

definition split ::
  "('df, 'dc) env \<Rightarrow> ('df, 'dc) handle \<Rightarrow> real list \<Rightarrow> 'df world \<Rightarrow>
   (error + ('df, 'dc) split_result) \<times> 'df world"
where
  "split e h weights w =
     (if weights = [] \<or> weights = [1] then (Inr (SplitSelf h), w)
      else if fsum e weights = 0
      then (Inl (if hd weights = 0 then ValueError else OverflowError), w)
      else
        case subset_each e h
               (split_slices e (random_shuffle e (pieceSubPaths (meta h))) weights
                  (nPieces (meta h))) w of
          (Inl err, w1) \<Rightarrow> (Inl err, w1)
        | (Inr adfs, w1) \<Rightarrow> (Inr (SplitList adfs), w1))"

subsection \<open>The number of pieces a sample is said to touch\<close>

text \<open>
  The number of pieces in the words of the specification: the larger of \<open>minNPieces\<close>
  and \<open>ceil(sqrt(n/R) * P)\<close>, capped by \<open>maxNPieces\<close> when given, and by \<open>P\<close>.
\<close>

definition spec_nPieces :: "int \<Rightarrow> nat \<Rightarrow> nat \<Rightarrow> int \<Rightarrow> int option \<Rightarrow> int" where
  "spec_nPieces n R P minNPieces maxNPieces =
     (let k = max minNPieces \<lceil>sqrt (real_of_int n / real R) * real P\<rceil>
      in min (int P) (case maxNPieces of Some m \<Rightarrow> min k m | None \<Rightarrow> k))"

text \<open>
  The same with the cap applied only for a \<open>maxNPieces\<close> that is given and not zero
  (\<open>spec_nPieces_nonzero_cap\<close>), and that with the quotient, its root and the product
  taken in floating point, and the quotient taken of no more rows than the dataset has
  (\<open>float_nPieces\<close>).
\<close>

definition spec_nPieces_nonzero_cap :: "int \<Rightarrow> nat \<Rightarrow> nat \<Rightarrow> int \<Rightarrow> int option \<Rightarrow> int" where
  "spec_nPieces_nonzero_cap n R P minNPieces maxNPieces =
     (let k = max minNPieces \<lceil>sqrt (real_of_int n / real R) * real P\<rceil>
      in min (int P) (case maxNPieces of Some m \<Rightarrow> if m \<noteq> 0 then min k m else k | None \<Rightarrow> k))"

definition float_nPieces ::
  "('df, 'dc) env \<Rightarrow> int \<Rightarrow> nat \<Rightarrow> nat \<Rightarrow> int \<Rightarrow> int option \<Rightarrow> int"
where
  "float_nPieces e n R P minNPieces maxNPieces =
     (let x = fmul e (fpow e (fdiv e (real_of_int (min n (int R))) (real R)) (1 / 2)) (real P);
          k = max minNPieces \<lceil>x\<rceil>
      in min (int P) (case maxNPieces of Some m \<Rightarrow> if m \<noteq> 0 then min k m else k | None \<Rightarrow> k))"

text \<open>
  What the theorem on sampling asks of the floating-point operations: the quotient of a
  number that is not negative by a positive one, the root of a number that is not
  negative, and the product of two numbers that are not negative, are not negative.
\<close>

definition floats_keep_sign :: "('df, 'dc) env \<Rightarrow> bool" where
  "floats_keep_sign e \<longleftrightarrow>
     (\<forall>x y. 0 \<le> x \<and> 0 < y \<longrightarrow> 0 \<le> fdiv e x y) \<and>
     (\<forall>x. 0 \<le> x \<longrightarrow> 0 \<le> fpow e x (1 / 2)) \<and>
     (\<forall>x y. 0 \<le> x \<and> 0 \<le> y \<longrightarrow> 0 \<le> fmul e x y)"

subsection \<open>The outcome of the sampling loop\<close>

text \<open>
  The sub-samples of the pieces whose read succeeds, and the pieces whose read fails with
  the error, both in the order of the pieces.
\<close>

definition succeeded :: "(string \<Rightarrow> error + 'smp) \<Rightarrow> string list \<Rightarrow> 'smp list" where
  "succeeded body ps =
     concat (map (\<lambda>p. case body p of Inr adf \<Rightarrow> [adf] | Inl err \<Rightarrow> []) ps)"

definition failed :: "(string \<Rightarrow> error + 'smp) \<Rightarrow> string list \<Rightarrow> (string \<times> error) list" where
  "failed body ps =
     concat (map (\<lambda>p. case body p of Inr adf \<Rightarrow> [] | Inl err \<Rightarrow> [(p, err)]) ps)"

subsection \<open>Partition keys in the words of the specification\<close>

text \<open>
  A sub-path is a sequence of directories \<open>key=value\<close> and a file name, separated by
  slashes. The value of a key in a sub-path is what follows \<open>key=\<close> in the directory
  that starts with it; a column is a partition key of the sub-path when it has a value
  there. A criterion is met by a sub-path when the value of its column is in the set, or
  within the bounds that are given.
\<close>

fun segments :: "string \<Rightarrow> string list" where
  "segments [] = [[]]"
| "segments (c # cs) =
     (if c = CHR ''/'' then [] # segments cs
      else (case segments cs of s # ss \<Rightarrow> (c # s) # ss | [] \<Rightarrow> [[c]]))"

fun key_value_in :: "col \<Rightarrow> string list \<Rightarrow> string option" where
  "key_value_in c [] = None"
| "key_value_in c (s # ss) =
     (if startswith s (c @ ''='') then Some (drop (length c + 1) s) else key_value_in c ss)"

definition key_value :: "col \<Rightarrow> string \<Rightarrow> string option" where
  "key_value c p = key_value_in c (butlast (segments p))"

definition is_key :: "col \<Rightarrow> string \<Rightarrow> bool" where
  "is_key c p \<longleftrightarrow> key_value c p \<noteq> None"

fun meets :: "criterion \<Rightarrow> string \<Rightarrow> bool" where
  "meets (InSet c vs) p = (case key_value c p of Some v \<Rightarrow> v \<in> set vs | None \<Rightarrow> False)"
| "meets (InRange c fromVal toVal) p =
     (case key_value c p of
        Some v \<Rightarrow>
          (case fromVal of Some f \<Rightarrow> \<not> str_less v f | None \<Rightarrow> True) \<and>
          (case toVal of Some u \<Rightarrow> \<not> str_less u v | None \<Rightarrow> True)
      | None \<Rightarrow> False)"
| "meets (OtherLen c) p = False"

subsection \<open>A handle that extends another one's chains\<close>







section \<open>An example dataset\<close>

text \<open>
  A small engine and a dataset of four daily partitions, on which the theorems below are
  instantiated. A frame of the example engine is its schema and its row count; dropping
  columns removes them from the schema, a callable named \<open>fail\<close> raises, and every other
  transform leaves the frame as it is. The example's arithmetic is exact, and its
  regular-expression library, which is asked only about column names with special
  characters, finds nothing.
\<close>

type_synonym demo_df = "(col \<times> string) list \<times> nat"

fun demo_apply :: "spark_op \<Rightarrow> demo_df \<Rightarrow> error + demo_df" where
  "demo_apply (Drop cols) df = Inr (filter (\<lambda>(c, t). c \<notin> set cols) (fst df), snd df)"
| "demo_apply (Callable f) df = (if f = ''fail'' then Inl (EngineError ''fail'') else Inr df)"
| "demo_apply _ df = Inr df"

definition demo_env :: "(demo_df, unit) env" where
  "demo_env =
     \<lparr>arrow_pieces = (\<lambda>cps p. Inl (EngineError ''no such path'')),
      spark_load = (\<lambda>cps p. Inl (EngineError ''no such path'')),
      spark_count = snd,
      spark_dtypes = fst,
      spark_cast_str = (\<lambda>c df. df),
      spark_apply = demo_apply,
      spark_sql = (\<lambda>q a df. Inr df),
      uuid4 = (\<lambda>i. ''0e4fa5f2''),
      random_sample = (\<lambda>pop k. take k pop),
      random_shuffle = (\<lambda>xs. xs),
      fdiv = (\<lambda>x y. x / y),
      fmul = (\<lambda>x y. x * y),
      fadd = (\<lambda>x y. x + y),
      fpow = (\<lambda>x y. if y = 1 / 2 then sqrt x else x powr y),
      fsum = sum_list,
      re_search = (\<lambda>pattern text. Inr NoMatch),
      D_COL = ''date'',
      TMP_DIR_PATH = ''/tmp/.arimo/df'',
      BINARY_TYPE = ''binary'',
      REPR_SAMPLE_MIN_N_PIECES = 100,
      empty_rest = (),
      inherit_cache =
        (\<lambda>c c'. c\<lparr>c_nRows := (case c_nRows c of Some r \<Rightarrow> Some r | None \<Rightarrow> c_nRows c')\<rparr>),
      copy_reprSample = (\<lambda>c c'. c),
      copy_colWidth = (\<lambda>c c'. c),
      share_pieceADFs = (\<lambda>c c'. c)\<rparr>"

definition demo_subPaths :: "string list" where
  "demo_subPaths =
     [''date=2018-01-01/part-0.parquet'', ''date=2018-01-02/part-0.parquet'',
      ''date=2018-01-03/part-0.parquet'', ''date=2018-01-04/part-0.parquet'']"

definition demo_df :: demo_df where
  "demo_df = ([(''id'', ''string''), (''x'', ''double'')], 100)"

definition demo_meta :: "demo_df cache_entry" where
  "demo_meta =
     \<lparr>ce_path = None, nPieces = 4,
      piecePaths = map (path_join ''/data/sales'') demo_subPaths,
      pieceSubPaths = demo_subPaths,
      partitionedByDateOnly = True, s3Client = False, s3Bucket = [], pathS3Key = [],
      tmpDirS3Key = [], tmpDirPath = ''/tmp/.arimo/df'',
      srcSparkDF = demo_df, srcNRows = 100\<rparr>"

definition demo_handle :: "(demo_df, unit) handle" where
  "demo_handle =
     \<lparr>path = ''/data/sales'', meta = demo_meta, initSparkDF = demo_df,
      sparkDFTransforms = [], pandasDFTransforms = [], sparkDF = demo_df,
      h_alias = None,
      cache = \<lparr>c_nRows = Some 100, c_type = fst demo_df, c_rest = ()\<rparr>,
      reprSampleMinNPieces = 1\<rparr>"

definition demo_world :: "demo_df world" where
  "demo_world =
     \<lparr>CACHE = [''/data/sales'' \<mapsto> Loaded demo_meta], copies = [], uuids_drawn = 0\<rparr>"


text \<open>
  Two datasets partitioned by a device: one by the key \<open>device_id\<close> alone, the other by
  the keys \<open>device_id\<close> and \<open>id\<close>, with two pieces each.
\<close>

definition devices_subPaths :: "string list" where
  "devices_subPaths = [''device_id=1/part-0.parquet'', ''device_id=2/part-0.parquet'']"

definition devices_meta :: "demo_df cache_entry" where
  "devices_meta =
     \<lparr>ce_path = None, nPieces = 2,
      piecePaths = map (path_join ''/data/devices'') devices_subPaths,
      pieceSubPaths = devices_subPaths,
      partitionedByDateOnly = False, s3Client = False, s3Bucket = [], pathS3Key = [],
      tmpDirS3Key = [], tmpDirPath = ''/tmp/.arimo/df'',
      srcSparkDF = demo_df, srcNRows = 100\<rparr>"

definition devices_handle :: "(demo_df, unit) handle" where
  "devices_handle =
     \<lparr>path = ''/data/devices'', meta = devices_meta, initSparkDF = demo_df,
      sparkDFTransforms = [], pandasDFTransforms = [], sparkDF = demo_df,
      h_alias = None,
      cache = \<lparr>c_nRows = Some 100, c_type = fst demo_df, c_rest = ()\<rparr>,
      reprSampleMinNPieces = 2\<rparr>"

definition ids_subPaths :: "string list" where
  "ids_subPaths = [''device_id=1/id=7/part-0.parquet'', ''device_id=2/id=7/part-0.parquet'']"

definition ids_meta :: "demo_df cache_entry" where
  "ids_meta =
     \<lparr>ce_path = None, nPieces = 2,
      piecePaths = map (path_join ''/data/ids'') ids_subPaths,
      pieceSubPaths = ids_subPaths,
      partitionedByDateOnly = False, s3Client = False, s3Bucket = [], pathS3Key = [],
      tmpDirS3Key = [], tmpDirPath = ''/tmp/.arimo/df'',
      srcSparkDF = demo_df, srcNRows = 100\<rparr>"

definition ids_handle :: "(demo_df, unit) handle" where
  "ids_handle =
     \<lparr>path = ''/data/ids'', meta = ids_meta, initSparkDF = demo_df,
      sparkDFTransforms = [], pandasDFTransforms = [], sparkDF = demo_df,
      h_alias = None,
      cache = \<lparr>c_nRows = Some 100, c_type = fst demo_df, c_rest = ()\<rparr>,
      reprSampleMinNPieces = 2\<rparr>"

definition devices_world :: "demo_df world" where
  "devices_world =
     \<lparr>CACHE = [''/data/devices'' \<mapsto> Loaded devices_meta, ''/data/ids'' \<mapsto> Loaded ids_meta],
      copies = [], uuids_drawn = 0\<rparr>"

text \<open>
  A dataset of 35 daily partitions with 49 rows, and the example engine with the three
  float operations as IEEE 754 double precision has them on the numbers of a sample of 9
  of these rows: the quotient 9/49 is \<open>6617534146340321 / 2^55\<close>, its power 0.5 is
  \<open>1930114126015927 / 2^52\<close>, and the product of that with 35 is
  \<open>8444249301319681 / 2^49\<close>, a little above 15.
\<close>

definition f64_env :: "(demo_df, unit) env" where
  "f64_env =
     demo_env
       \<lparr>fdiv := (\<lambda>x y. if x = 9 \<and> y = 49 then 6617534146340321 / 2 ^ 55 else x / y),
        fmul := (\<lambda>x y. if x = 1930114126015927 / 2 ^ 52 \<and> y = 35
                       then 8444249301319681 / 2 ^ 49 else x * y),
        fpow := (\<lambda>x y. if x = 6617534146340321 / 2 ^ 55 \<and> y = 1 / 2
                       then 1930114126015927 / 2 ^ 52 else fpow demo_env x y)\<rparr>"

definition wide_subPaths :: "string list" where
  "wide_subPaths =
     [''date=2018-01-01/part-0.parquet'', ''date=2018-01-02/part-0.parquet'',
      ''date=2018-01-03/part-0.parquet'', ''date=2018-01-04/part-0.parquet'',
      ''date=2018-01-05/part-0.parquet'', ''date=2018-01-06/part-0.parquet'',
      ''date=2018-01-07/part-0.parquet'', ''date=2018-01-08/part-0.parquet'',
      ''date=2018-01-09/part-0.parquet'', ''date=2018-01-10/part-0.parquet'',
      ''date=2018-01-11/part-0.parquet'', ''date=2018-01-12/part-0.parquet'',
      ''date=2018-01-13/part-0.parquet'', ''date=2018-01-14/part-0.parquet'',
      ''date=2018-01-15/part-0.parquet'', ''date=2018-01-16/part-0.parquet'',
      ''date=2018-01-17/part-0.parquet'', ''date=2018-01-18/part-0.parquet'',
      ''date=2018-01-19/part-0.parquet'', ''date=2018-01-20/part-0.parquet'',
      ''date=2018-01-21/part-0.parquet'', ''date=2018-01-22/part-0.parquet'',
      ''date=2018-01-23/part-0.parquet'', ''date=2018-01-24/part-0.parquet'',
      ''date=2018-01-25/part-0.parquet'', ''date=2018-01-26/part-0.parquet'',
      ''date=2018-01-27/part-0.parquet'', ''date=2018-01-28/part-0.parquet'',
      ''date=2018-01-29/part-0.parquet'', ''date=2018-01-30/part-0.parquet'',
      ''date=2018-01-31/part-0.parquet'', ''date=2018-02-01/part-0.parquet'',
      ''date=2018-02-02/part-0.parquet'', ''date=2018-02-03/part-0.parquet'',
      ''date=2018-02-04/part-0.parquet'']"

definition wide_handle :: "(demo_df, unit) handle" where
  "wide_handle =
     \<lparr>path = ''/data/wide'',
      meta =
        \<lparr>ce_path = None, nPieces = 35,
         piecePaths = map (path_join ''/data/wide'') wide_subPaths,
         pieceSubPaths = wide_subPaths,
         partitionedByDateOnly = True, s3Client = False, s3Bucket = [], pathS3Key = [],
         tmpDirS3Key = [], tmpDirPath = ''/tmp/.arimo/df'',
         srcSparkDF = (fst demo_df, 49), srcNRows = 49\<rparr>,
      initSparkDF = (fst demo_df, 49),
      sparkDFTransforms = [], pandasDFTransforms = [], sparkDF = (fst demo_df, 49),
      h_alias = None,
      cache = \<lparr>c_nRows = Some 49, c_type = fst demo_df, c_rest = ()\<rparr>,
      reprSampleMinNPieces = 1\<rparr>"
section \<open>Profiling mixin: proofs\<close>

lemma cache_consistent_init: "cache_consistent nnp (profiler_init t)"
  by (simp add: cache_consistent_def profiler_init_def)

lemma cache_consistent_set:
  "cache_consistent nnp s \<Longrightarrow> cache_consistent nnp (set_minNonNullProportion v s)"
  by (simp add: cache_consistent_def set_minNonNullProportion_def)

lemma cache_consistent_suffNonNull:
  assumes "cache_consistent nnp s"
  shows "cache_consistent nnp (snd (suffNonNull nnp c s))"
proof (cases "cache_suffNonNull s c")
  case None
  with assms show ?thesis
    unfolding cache_consistent_def suffNonNull_def Let_def by simp
next
  case (Some b)
  with assms obtain t where t: "cache_suffNonNullProportionThreshold s c = Some t"
    and b: "b = (nnp c \<ge> t)"
    unfolding cache_consistent_def by blast
  show ?thesis
  proof (cases "t = threshold_item (p_minNonNullProportion s) c")
    case True
    with assms Some t b show ?thesis
      unfolding cache_consistent_def suffNonNull_def Let_def by simp
  next
    case False
    with assms Some t show ?thesis
      unfolding cache_consistent_def suffNonNull_def Let_def by simp
  qed
qed

lemma cache_consistent_step:
  "cache_consistent nnp s \<Longrightarrow> cache_consistent nnp (profiler_step nnp s x)"
  by (cases x) (simp_all add: cache_consistent_set cache_consistent_suffNonNull)

lemma cache_consistent_foldl:
  "cache_consistent nnp s \<Longrightarrow> cache_consistent nnp (foldl (profiler_step nnp) s ops)"
  by (induction ops arbitrary: s) (simp_all add: cache_consistent_step)

lemma cache_consistent_run: "cache_consistent nnp (profiler_run nnp t ops)"
  by (simp add: profiler_run_def cache_consistent_foldl cache_consistent_init)

lemma suffNonNull_current:
  assumes "cache_consistent nnp s"
  shows "fst (suffNonNull nnp c s) = (nnp c \<ge> threshold_item (p_minNonNullProportion s) c)"
proof (cases "cache_suffNonNull s c")
  case None
  then show ?thesis
    by (simp add: suffNonNull_def Let_def)
next
  case (Some b)
  with assms obtain t where t: "cache_suffNonNullProportionThreshold s c = Some t"
    and b: "b = (nnp c \<ge> t)"
    unfolding cache_consistent_def by blast
  show ?thesis
    using Some t b by (simp add: suffNonNull_def Let_def)
qed

lemma per_col_step:
  "per_col (p_minNonNullProportion (profiler_step nnp s x)) = per_col (p_minNonNullProportion s)"
  by (cases x)
    (simp_all add: set_minNonNullProportion_def suffNonNull_def Let_def split: option.splits)

lemma per_col_foldl:
  "per_col (p_minNonNullProportion (foldl (profiler_step nnp) s ops)) =
   per_col (p_minNonNullProportion s)"
  by (induction ops arbitrary: s) (simp_all add: per_col_step)

lemma per_col_run: "per_col (p_minNonNullProportion (profiler_run nnp t ops)) = per_col t"
  by (simp add: profiler_run_def per_col_foldl profiler_init_def)

lemma threshold_item_set:
  "v \<noteq> default_value (p_minNonNullProportion s) \<Longrightarrow>
   per_col (p_minNonNullProportion s) c = None \<Longrightarrow>
   threshold_item (p_minNonNullProportion (set_minNonNullProportion v s)) c = v"
  by (simp add: set_minNonNullProportion_def threshold_item_def)

text \<open>
  C4. After any sequence of threshold assignments and \<open>suffNonNull\<close> queries, assigning
  to \<open>minNonNullProportion\<close> a value different from the current one leaves no cached
  \<open>suffNonNull\<close> result, and the next \<open>suffNonNull(col)\<close> returns whether
  \<open>nonNullProportion(col)\<close> meets the threshold now in force for the column, which is the
  new value for a column without an entry of its own. More generally a query in any
  reachable state answers against the threshold in force, never with a boolean computed
  against an earlier one.
\<close>

theorem suffNonNull_never_stale:
  fixes nnp :: "col \<Rightarrow> real"
  assumes "s = profiler_run nnp t ops"
    and "v \<noteq> minNonNullProportion s"
    and "s' = set_minNonNullProportion v s"
  shows "cache_suffNonNull s' = Map.empty \<and>
         minNonNullProportion s' = v \<and>
         fst (suffNonNull nnp c s') = (nnp c \<ge> threshold_item (p_minNonNullProportion s') c) \<and>
         (per_col t c = None \<longrightarrow> fst (suffNonNull nnp c s') = (nnp c \<ge> v)) \<and>
         fst (suffNonNull nnp c s) = (nnp c \<ge> threshold_item (p_minNonNullProportion s) c)"
proof -
  have cs: "cache_consistent nnp s"
    using assms(1) by (simp add: cache_consistent_run)
  then have cs': "cache_consistent nnp s'"
    using assms(3) by (simp add: cache_consistent_set)
  have empty: "cache_suffNonNull s' = Map.empty"
    using assms(2,3) by (simp add: set_minNonNullProportion_def minNonNullProportion_def)
  have new: "minNonNullProportion s' = v"
    using assms(2,3) by (simp add: set_minNonNullProportion_def minNonNullProportion_def)
  have cur: "fst (suffNonNull nnp c s') = (nnp c \<ge> threshold_item (p_minNonNullProportion s') c)"
    using cs' by (rule suffNonNull_current)
  have before: "fst (suffNonNull nnp c s) = (nnp c \<ge> threshold_item (p_minNonNullProportion s) c)"
    using cs by (rule suffNonNull_current)
  have plain: "fst (suffNonNull nnp c s') = (nnp c \<ge> v)" if "per_col t c = None"
  proof -
    have "per_col (p_minNonNullProportion s) c = None"
      using that assms(1) by (simp add: per_col_run)
    then have "threshold_item (p_minNonNullProportion s') c = v"
      using assms(2,3) by (simp add: threshold_item_set minNonNullProportion_def)
    with cur show ?thesis by simp
  qed
  from empty new cur before plain show ?thesis by blast
qed

text \<open>
  A column with non-null proportion 1/2 is sufficient under the threshold 0.32 and the
  answer is cached; after the threshold is raised to 0.6 the next query answers False.
\<close>

theorem suffNonNull_never_stale_witness:
  "fst (suffNonNull (\<lambda>_. 1 / 2) ''x''
          (profiler_run (\<lambda>_. 1 / 2) \<lparr>default_value = 32 / 100, per_col = Map.empty\<rparr> [])) = True \<and>
   6 / 10 \<noteq> minNonNullProportion
          (profiler_run (\<lambda>_. 1 / 2) \<lparr>default_value = 32 / 100, per_col = Map.empty\<rparr>
             [SuffNonNull ''x'']) \<and>
   fst (suffNonNull (\<lambda>_. 1 / 2) ''x''
          (set_minNonNullProportion (6 / 10)
             (profiler_run (\<lambda>_. 1 / 2) \<lparr>default_value = 32 / 100, per_col = Map.empty\<rparr>
                [SuffNonNull ''x'']))) = False"
proof -
  let ?t = "\<lparr>default_value = 32 / 100, per_col = Map.empty\<rparr> :: threshold"
  let ?nnp = "(\<lambda>_. 1 / 2) :: col \<Rightarrow> real"
  have first: "fst (suffNonNull ?nnp ''x'' (profiler_run ?nnp ?t [])) = True"
    by (simp add: profiler_run_def profiler_init_def suffNonNull_def threshold_item_def Let_def)
  have h: "6 / 10 \<noteq> minNonNullProportion (profiler_run ?nnp ?t [SuffNonNull ''x''])"
    by (simp add: profiler_run_def profiler_init_def suffNonNull_def threshold_item_def
        minNonNullProportion_def Let_def)
  from suffNonNull_never_stale [OF refl h refl, of "''x''"]
  have "per_col ?t ''x'' = None \<longrightarrow>
        fst (suffNonNull ?nnp ''x''
          (set_minNonNullProportion (6 / 10) (profiler_run ?nnp ?t [SuffNonNull ''x'']))) =
        (?nnp ''x'' \<ge> 6 / 10)"
    by blast
  then have "fst (suffNonNull ?nnp ''x''
          (set_minNonNullProportion (6 / 10) (profiler_run ?nnp ?t [SuffNonNull ''x'']))) = False"
    by simp
  with first h show ?thesis by blast
qed

section \<open>Partition subsetting, filtering and splitting: proofs\<close>

lemma demo_handle_ok: "handle_ok demo_handle"
  by (simp add: handle_ok_def demo_handle_def demo_meta_def demo_subPaths_def)

lemma full_set_length:
  assumes "handle_ok h" and "distinct ps" and "set ps = set (pieceSubPaths (meta h))"
  shows "length ps = nPieces (meta h)"
proof -
  have "length ps = card (set ps)"
    using assms(2) by (simp add: distinct_card)
  also have "\<dots> = card (set (pieceSubPaths (meta h)))"
    using assms(3) by simp
  also have "\<dots> = length (pieceSubPaths (meta h))"
    using assms(1) by (simp add: handle_ok_def distinct_card)
  finally show ?thesis
    using assms(1) by (simp add: handle_ok_def)
qed

lemma do_subset_all:
  assumes "handle_ok h"
  shows "do_subset e h (pieceSubPaths (meta h)) al w = (Inr h, w)"
  using assms by (simp add: do_subset_def handle_ok_def)

text \<open>
  C2. \<open>_subset\<close> called with a set of sub-paths equal to the handle's full set returns
  the handle itself, and the world is as before the call: no copy was made, no identifier
  drawn, the registry not touched.
\<close>

theorem subset_full_set_returns_self:
  assumes "handle_ok h"
    and "distinct ps"
    and "set ps = set (pieceSubPaths (meta h))"
  shows "do_subset e h ps al w = (Inr h, w)"
proof -
  have len: "length ps = nPieces (meta h)"
    using assms by (rule full_set_length)
  have sub: "set ps \<subseteq> set (pieceSubPaths (meta h))"
    using assms(3) by simp
  show ?thesis
    using len sub by (simp add: do_subset_def)
qed

theorem subset_full_set_returns_self_witness:
  "do_subset demo_env demo_handle
     [''date=2018-01-04/part-0.parquet'', ''date=2018-01-02/part-0.parquet'',
      ''date=2018-01-01/part-0.parquet'', ''date=2018-01-03/part-0.parquet''] None demo_world =
   (Inr demo_handle, demo_world) \<and>
   copies (snd (do_subset demo_env demo_handle
     [''date=2018-01-04/part-0.parquet'', ''date=2018-01-02/part-0.parquet'',
      ''date=2018-01-01/part-0.parquet'', ''date=2018-01-03/part-0.parquet''] None demo_world)) = []"
proof -
  let ?ps = "[''date=2018-01-04/part-0.parquet'', ''date=2018-01-02/part-0.parquet'',
      ''date=2018-01-01/part-0.parquet'', ''date=2018-01-03/part-0.parquet'']"
  have d: "distinct ?ps" by simp
  have s: "set ?ps = set (pieceSubPaths (meta demo_handle))"
    by (auto simp add: demo_handle_def demo_meta_def demo_subPaths_def)
  have "do_subset demo_env demo_handle ?ps None demo_world = (Inr demo_handle, demo_world)"
    using subset_full_set_returns_self [OF demo_handle_ok d s] .
  then show ?thesis by (simp add: demo_world_def)
qed

lemma collect_criteria_filter:
  "collect_criteria smp (filter (\<lambda>t. contains smp (crit_col t @ ''='')) ts) fc =
   collect_criteria smp ts fc"
  by (induction ts arbitrary: fc) (auto split: criterion.splits)

lemma collect_criteria_none:
  "\<forall>t \<in> set ts. \<not> contains smp (crit_col t @ ''='') \<Longrightarrow> collect_criteria smp ts fc = Inr fc"
  by (induction ts arbitrary: fc) auto

text \<open>
  What the first loop does: a criterion is passed over when \<open>col=\<close> does not occur
  anywhere in the sampled sub-path, and with every criterion passed over the call returns
  the handle itself and leaves the world as it was.
\<close>

lemma filterByPartitionKeys_skips_unmatched:
  assumes "pieceSubPaths (meta h) = smp # rest"
  shows "filterByPartitionKeys e h ts al w =
           filterByPartitionKeys e h (filter (\<lambda>t. contains smp (crit_col t @ ''='')) ts) al w \<and>
         ((\<forall>t \<in> set ts. \<not> contains smp (crit_col t @ ''='')) \<longrightarrow>
            filterByPartitionKeys e h ts al w = (Inr h, w))"
proof -
  have first: "filterByPartitionKeys e h ts al w =
      filterByPartitionKeys e h (filter (\<lambda>t. contains smp (crit_col t @ ''='')) ts) al w"
    using assms by (simp add: filterByPartitionKeys_def collect_criteria_filter)
  have second: "filterByPartitionKeys e h ts al w = (Inr h, w)"
    if "\<forall>t \<in> set ts. \<not> contains smp (crit_col t @ ''='')"
    using assms that by (simp add: filterByPartitionKeys_def collect_criteria_none)
  from first second show ?thesis by blast
qed

lemma demo_subPaths_Cons:
  "pieceSubPaths (meta demo_handle) =
     ''date=2018-01-01/part-0.parquet'' #
     [''date=2018-01-02/part-0.parquet'', ''date=2018-01-03/part-0.parquet'',
      ''date=2018-01-04/part-0.parquet'']"
  by (simp add: demo_handle_def demo_meta_def demo_subPaths_def)

text \<open>
  On the example dataset, criteria on the columns \<open>country\<close> and \<open>region\<close>, of which
  nothing occurs in the sub-paths, are passed over.
\<close>

lemma filterByPartitionKeys_skips_unmatched_example:
  "filterByPartitionKeys demo_env demo_handle
     [InSet ''country'' [''VN''], OtherLen ''region''] None demo_world =
   (Inr demo_handle, demo_world)"
proof -
  have n: "\<forall>t \<in> set [InSet ''country'' [''VN''], OtherLen ''region''].
      \<not> contains ''date=2018-01-01/part-0.parquet'' (crit_col t @ ''='')"
    by code_simp
  from filterByPartitionKeys_skips_unmatched [OF demo_subPaths_Cons, of demo_env
      "[InSet ''country'' [''VN''], OtherLen ''region'']" None demo_world] n
  show ?thesis by blast
qed

text \<open>
  With criteria taken up, the call comes down to the check of the sub-paths: none passing
  fails the assertion, and those that pass go to \<open>_subset\<close>.
\<close>

lemma filterByPartitionKeys_checked:
  assumes "pieceSubPaths (meta h) = smp # rest"
    and "collect_criteria smp ts [] = Inr fc"
    and "fc \<noteq> []"
    and "chk_pieces e fc (pieceSubPaths (meta h)) = Inr ps"
  shows "filterByPartitionKeys e h ts al w =
           (if ps = [] then (Inl AssertionError, w) else do_subset e h ps al w)"
  using assms by (simp add: filterByPartitionKeys_def)

lemma devices_subPaths_Cons:
  "pieceSubPaths (meta devices_handle) =
     ''device_id=1/part-0.parquet'' # [''device_id=2/part-0.parquet'']"
  by (simp add: devices_handle_def devices_meta_def devices_subPaths_def)

lemma ids_subPaths_Cons:
  "pieceSubPaths (meta ids_handle) =
     ''device_id=1/id=7/part-0.parquet'' # [''device_id=2/id=7/part-0.parquet'']"
  by (simp add: ids_handle_def ids_meta_def ids_subPaths_def)

lemma ids_handle_ok: "handle_ok ids_handle"
  by (simp add: handle_ok_def ids_handle_def ids_meta_def ids_subPaths_def)

text \<open>
  C9 fails on the dataset partitioned by \<open>device_id\<close> alone, with a criterion on the
  column \<open>id\<close>. The column is not a partition key of any sub-path, so the criterion
  applies to no partition key and the call should return the handle. But \<open>id=\<close> occurs in
  the sampled sub-path, inside \<open>device_id=\<close>: the criterion is taken up, the regular
  expression reads the value of \<open>device_id\<close> for it, no sub-path passes and the assertion
  fails. The same happens on the example dataset of daily partitions with a criterion on
  \<open>ate\<close>, which occurs inside \<open>date=\<close>.
\<close>

theorem filterByPartitionKeys_takes_up_part_of_key:
  "map (is_key ''id'') (pieceSubPaths (meta devices_handle)) = [False, False] \<and>
   filterByPartitionKeys demo_env devices_handle [InSet ''id'' [''7'']] None devices_world =
     (Inl AssertionError, devices_world) \<and>
   map (is_key ''ate'') (pieceSubPaths (meta demo_handle)) = [False, False, False, False] \<and>
   filterByPartitionKeys demo_env demo_handle [InSet ''ate'' [''2019'']] None demo_world =
     (Inl AssertionError, demo_world)"
proof -
  have k1: "map (is_key ''id'') (pieceSubPaths (meta devices_handle)) = [False, False]"
    by code_simp
  have c1: "collect_criteria ''device_id=1/part-0.parquet'' [InSet ''id'' [''7'']] [] =
      Inr [(''id'', None, None, Some [''7''])]"
    by code_simp
  have p1: "chk_pieces e [(''id'', None, None, Some [''7''])]
      (pieceSubPaths (meta devices_handle)) = Inr []" for e :: "(demo_df, unit) env"
    by code_simp
  have ne1: "[(''id'', None, None, Some [''7''])] \<noteq> ([] :: criteria)"
    by simp
  have r1: "filterByPartitionKeys demo_env devices_handle [InSet ''id'' [''7'']] None
      devices_world = (Inl AssertionError, devices_world)"
    using filterByPartitionKeys_checked [OF devices_subPaths_Cons c1 ne1 p1] by simp
  have k2: "map (is_key ''ate'') (pieceSubPaths (meta demo_handle)) =
      [False, False, False, False]"
    by code_simp
  have c2: "collect_criteria ''date=2018-01-01/part-0.parquet'' [InSet ''ate'' [''2019'']] [] =
      Inr [(''ate'', None, None, Some [''2019''])]"
    by code_simp
  have p2: "chk_pieces e [(''ate'', None, None, Some [''2019''])]
      (pieceSubPaths (meta demo_handle)) = Inr []" for e :: "(demo_df, unit) env"
    by code_simp
  have ne2: "[(''ate'', None, None, Some [''2019''])] \<noteq> ([] :: criteria)"
    by simp
  have r2: "filterByPartitionKeys demo_env demo_handle [InSet ''ate'' [''2019'']] None
      demo_world = (Inl AssertionError, demo_world)"
    using filterByPartitionKeys_checked [OF demo_subPaths_Cons c2 ne2 p2] by simp
  from k1 r1 k2 r2 show ?thesis
    by (intro conjI)
qed

lemma chk_pieces_Inr:
  "chk_pieces e fc ps = Inr qs \<Longrightarrow> qs = filter (\<lambda>p. chk_piece e fc p = Inr True) ps"
proof (induction ps arbitrary: qs)
  case Nil
  then show ?case by simp
next
  case (Cons p ps)
  then show ?case
    by (auto split: sum.splits if_splits)
qed

lemma chk_pieces_all:
  "\<forall>p \<in> set ps. chk_piece e fc p = Inr True \<Longrightarrow> chk_pieces e fc ps = Inr ps"
  by (induction ps) auto

text \<open>
  What the second loop does, in terms of its own check. Let the criteria taken up from
  the call be \<open>fc\<close>, not empty. If no sub-path of the handle passes the check,
  \<open>filterByPartitionKeys\<close> raises; if every sub-path passes it, the call returns the
  handle itself and leaves the world as it was.
\<close>

lemma filterByPartitionKeys_checked_none_or_all:
  assumes "handle_ok h"
    and "pieceSubPaths (meta h) = smp # rest"
    and "collect_criteria smp ts [] = Inr fc"
    and "fc \<noteq> []"
  shows "((\<forall>p \<in> set (pieceSubPaths (meta h)). chk_piece e fc p \<noteq> Inr True) \<longrightarrow>
            (\<exists>err. filterByPartitionKeys e h ts al w = (Inl err, w))) \<and>
         ((\<forall>p \<in> set (pieceSubPaths (meta h)). chk_piece e fc p = Inr True) \<longrightarrow>
            filterByPartitionKeys e h ts al w = (Inr h, w))"
proof (intro conjI impI)
  assume none: "\<forall>p \<in> set (pieceSubPaths (meta h)). chk_piece e fc p \<noteq> Inr True"
  show "\<exists>err. filterByPartitionKeys e h ts al w = (Inl err, w)"
  proof (cases "chk_pieces e fc (pieceSubPaths (meta h))")
    case (Inl err)
    then show ?thesis
      using assms(2,3,4) by (simp add: filterByPartitionKeys_def)
  next
    case (Inr qs)
    then have "qs = filter (\<lambda>p. chk_piece e fc p = Inr True) (pieceSubPaths (meta h))"
      by (rule chk_pieces_Inr)
    with none have "qs = []"
      by (simp add: filter_empty_conv)
    with Inr show ?thesis
      using assms(2,3,4) by (simp add: filterByPartitionKeys_def)
  qed
next
  assume all: "\<forall>p \<in> set (pieceSubPaths (meta h)). chk_piece e fc p = Inr True"
  then have "chk_pieces e fc (pieceSubPaths (meta h)) = Inr (pieceSubPaths (meta h))"
    by (rule chk_pieces_all)
  moreover have "do_subset e h (pieceSubPaths (meta h)) al w = (Inr h, w)"
    using assms(1) by (rule do_subset_all)
  ultimately show "filterByPartitionKeys e h ts al w = (Inr h, w)"
    using assms(2,3,4) by (simp add: filterByPartitionKeys_def)
qed

text \<open>
  C3 fails on the dataset partitioned by \<open>device_id\<close> and \<open>id\<close>, with a criterion on
  the partition key \<open>id\<close>. Every sub-path has \<open>id=7\<close>. With the set \<open>{'7'}\<close> every
  sub-path meets the criterion, and the call should return a handle equivalent to the
  unfiltered one; with the set \<open>{'1', '2'}\<close> no sub-path meets it, and the call should
  raise. But the regular expression is not tied to the start of a directory name: for
  \<open>id\<close> it reads the value of \<open>device_id\<close>, the first place where \<open>id=\<close> occurs. So
  with \<open>{'7'}\<close> no sub-path passes and the assertion fails, and with \<open>{'1', '2'}\<close> every
  sub-path passes and the handle itself is returned.
\<close>

theorem filterByPartitionKeys_reads_value_of_other_key:
  "map (meets (InSet ''id'' [''7''])) (pieceSubPaths (meta ids_handle)) = [True, True] \<and>
   filterByPartitionKeys demo_env ids_handle [InSet ''id'' [''7'']] None devices_world =
     (Inl AssertionError, devices_world) \<and>
   map (meets (InSet ''id'' [''1'', ''2''])) (pieceSubPaths (meta ids_handle)) =
     [False, False] \<and>
   filterByPartitionKeys demo_env ids_handle [InSet ''id'' [''1'', ''2'']] None devices_world =
     (Inr ids_handle, devices_world)"
proof -
  have m1: "map (meets (InSet ''id'' [''7''])) (pieceSubPaths (meta ids_handle)) = [True, True]"
    by code_simp
  have c1: "collect_criteria ''device_id=1/id=7/part-0.parquet'' [InSet ''id'' [''7'']] [] =
      Inr [(''id'', None, None, Some [''7''])]"
    by code_simp
  have p1: "chk_pieces e [(''id'', None, None, Some [''7''])]
      (pieceSubPaths (meta ids_handle)) = Inr []" for e :: "(demo_df, unit) env"
    by code_simp
  have ne1: "[(''id'', None, None, Some [''7''])] \<noteq> ([] :: criteria)"
    by simp
  have r1: "filterByPartitionKeys demo_env ids_handle [InSet ''id'' [''7'']] None
      devices_world = (Inl AssertionError, devices_world)"
    using filterByPartitionKeys_checked [OF ids_subPaths_Cons c1 ne1 p1] by simp
  have m2: "map (meets (InSet ''id'' [''1'', ''2''])) (pieceSubPaths (meta ids_handle)) =
      [False, False]"
    by code_simp
  have c2: "collect_criteria ''device_id=1/id=7/part-0.parquet'' [InSet ''id'' [''1'', ''2'']] [] =
      Inr [(''id'', None, None, Some [''1'', ''2''])]"
    by code_simp
  have p2: "chk_pieces e [(''id'', None, None, Some [''1'', ''2''])]
      (pieceSubPaths (meta ids_handle)) = Inr (pieceSubPaths (meta ids_handle))"
    for e :: "(demo_df, unit) env"
    by code_simp
  have ne2: "[(''id'', None, None, Some [''1'', ''2''])] \<noteq> ([] :: criteria)"
    by simp
  have nonempty: "pieceSubPaths (meta ids_handle) \<noteq> []"
    by (simp add: ids_subPaths_Cons)
  have all: "do_subset demo_env ids_handle (pieceSubPaths (meta ids_handle)) None devices_world =
      (Inr ids_handle, devices_world)"
    using ids_handle_ok by (rule do_subset_all)
  have r2: "filterByPartitionKeys demo_env ids_handle [InSet ''id'' [''1'', ''2'']] None
      devices_world = (Inr ids_handle, devices_world)"
    using filterByPartitionKeys_checked [OF ids_subPaths_Cons c2 ne2 p2] nonempty all by simp
  from m1 r1 m2 r2 show ?thesis
    by (intro conjI)
qed

text \<open>
  On the example dataset, where \<open>date\<close> is the only key, a range of dates that covers all
  four partitions returns the handle, and a date outside them raises.
\<close>

lemma filterByPartitionKeys_checked_none_or_all_example:
  "filterByPartitionKeys demo_env demo_handle
     [InRange ''date'' (Some ''2018-01-01'') (Some ''2018-12-31'')] None demo_world =
   (Inr demo_handle, demo_world) \<and>
   (\<exists>err. filterByPartitionKeys demo_env demo_handle
     [InSet ''date'' [''2019-01-01'']] None demo_world = (Inl err, demo_world))"
proof -
  let ?all = "[(''date'', Some ''2018-01-01'', Some ''2018-12-31'', None)] :: criteria"
  let ?none = "[(''date'', None, None, Some [''2019-01-01''])] :: criteria"
  have c1: "collect_criteria ''date=2018-01-01/part-0.parquet''
      [InRange ''date'' (Some ''2018-01-01'') (Some ''2018-12-31'')] [] = Inr ?all"
    by code_simp
  have c2: "collect_criteria ''date=2018-01-01/part-0.parquet''
      [InSet ''date'' [''2019-01-01'']] [] = Inr ?none"
    by code_simp
  have a: "\<forall>p \<in> set (pieceSubPaths (meta demo_handle)). chk_piece e ?all p = Inr True"
    for e :: "(demo_df, unit) env"
    by code_simp
  have n: "\<forall>p \<in> set (pieceSubPaths (meta demo_handle)). chk_piece e ?none p \<noteq> Inr True"
    for e :: "(demo_df, unit) env"
    by code_simp
  have ne1: "?all \<noteq> []" and ne2: "?none \<noteq> []"
    by simp_all
  note all_case = filterByPartitionKeys_checked_none_or_all [OF demo_handle_ok demo_subPaths_Cons c1 ne1,
      of demo_env None demo_world, THEN conjunct2, THEN mp, OF a]
  note none_case = filterByPartitionKeys_checked_none_or_all [OF demo_handle_ok demo_subPaths_Cons c2 ne2,
      of demo_env None demo_world, THEN conjunct1, THEN mp, OF n]
  from all_case none_case show ?thesis by (rule conjI)
qed

text \<open>
  C10. \<open>split\<close> without weights, and with the single weight 1, returns the handle itself,
  not a list, and leaves the world as it was.
\<close>

theorem split_trivial_returns_self:
  "split e h [] w = (Inr (SplitSelf h), w) \<and> split e h [1] w = (Inr (SplitSelf h), w)"
  by (simp add: split_def)

theorem split_trivial_returns_self_witness:
  "split demo_env demo_handle [] demo_world = (Inr (SplitSelf demo_handle), demo_world) \<and>
   split demo_env demo_handle [1] demo_world = (Inr (SplitSelf demo_handle), demo_world)"
  using split_trivial_returns_self [of demo_env demo_handle demo_world] .

section \<open>Sampling: proofs\<close>

lemma ceil_sqrt_ge:
  assumes "int R < n" and "0 < R"
  shows "int P \<le> \<lceil>sqrt (real_of_int n / real R) * real P\<rceil>"
proof -
  have "real R \<le> real_of_int n"
    using assms(1) by linarith
  then have "1 \<le> real_of_int n / real R"
    using assms(2) by (simp add: le_divide_eq)
  then have "1 \<le> sqrt (real_of_int n / real R)"
    by simp
  then have "1 * real P \<le> sqrt (real_of_int n / real R) * real P"
    by (intro mult_right_mono) simp_all
  then have "of_int (int P) \<le> sqrt (real_of_int n / real R) * real P"
    by simp
  then have "\<lceil>(of_int (int P)) :: real\<rceil> \<le> \<lceil>sqrt (real_of_int n / real R) * real P\<rceil>"
    by (rule ceiling_mono)
  then show ?thesis by simp
qed

text \<open>
  The float that the code rounds up is not negative, for a dataset with rows and a sample
  size that is not negative.
\<close>

lemma float_product_nonneg:
  assumes "floats_keep_sign e" and "0 < R" and "0 \<le> n"
  shows "0 \<le> fdiv e (real_of_int (min n (int R))) (real R)"
    and "0 \<le> fmul e (fpow e (fdiv e (real_of_int (min n (int R))) (real R)) (1 / 2)) (real P)"
proof -
  have a: "0 \<le> real_of_int (min n (int R))" and b: "0 < real R"
    using assms(2,3) by simp_all
  from assms(1) a b show q: "0 \<le> fdiv e (real_of_int (min n (int R))) (real R)"
    unfolding floats_keep_sign_def by blast
  from assms(1) q have "0 \<le> fpow e (fdiv e (real_of_int (min n (int R))) (real R)) (1 / 2)"
    unfolding floats_keep_sign_def by blast
  moreover have "0 \<le> real P"
    by simp
  ultimately show
    "0 \<le> fmul e (fpow e (fdiv e (real_of_int (min n (int R))) (real R)) (1 / 2)) (real P)"
    using assms(1) unfolding floats_keep_sign_def by blast
qed

text \<open>The number of pieces, as the code computes it for a dataset with rows.\<close>

lemma sampleNPieces_value:
  assumes "floats_keep_sign e" and "0 < R" and "0 \<le> n"
  shows "sampleNPieces e n R P minN maxN =
           Inr (let k = max \<lceil>fmul e (fpow e (fdiv e (real_of_int (min n (int R))) (real R))
                                   (1 / 2)) (real P)\<rceil> minN
                in case maxN of Some m \<Rightarrow> if m \<noteq> 0 then min k m else k | None \<Rightarrow> k)"
  using float_product_nonneg(1) [OF assms] assms(2)
  by (simp add: sampleNPieces_def Let_def not_less)

lemma sampleNPieces_nonneg:
  assumes "floats_keep_sign e" and "0 < R" and "0 \<le> n"
    and "\<forall>m. maxN = Some m \<longrightarrow> 0 \<le> m"
    and "sampleNPieces e n R P minN maxN = Inr s"
  shows "0 \<le> s"
proof -
  define c where
    "c = \<lceil>fmul e (fpow e (fdiv e (real_of_int (min n (int R))) (real R)) (1 / 2)) (real P)\<rceil>"
  have "\<lceil>0::real\<rceil> \<le> c"
    unfolding c_def using float_product_nonneg(2) [OF assms(1,2,3)] by (rule ceiling_mono)
  then have c: "0 \<le> c"
    by simp
  have "s = (case maxN of Some m \<Rightarrow> if m \<noteq> 0 then min (max c minN) m else max c minN
             | None \<Rightarrow> max c minN)"
    using assms(5) unfolding sampleNPieces_value [OF assms(1,2,3)] Let_def c_def by simp
  then show ?thesis
    using assms(4) c by (cases maxN) (auto simp add: min_def max_def)
qed

lemma capped_by_nPieces:
  assumes "floats_keep_sign e" and "0 < R" and "0 \<le> n"
    and "sampleNPieces e n R P minN maxN = Inr s"
  shows "min (int P) s = float_nPieces e n R P minN maxN"
proof -
  define c where
    "c = \<lceil>fmul e (fpow e (fdiv e (real_of_int (min n (int R))) (real R)) (1 / 2)) (real P)\<rceil>"
  have s: "s = (case maxN of Some m \<Rightarrow> if m \<noteq> 0 then min (max c minN) m else max c minN
             | None \<Rightarrow> max c minN)"
    using assms(4) unfolding sampleNPieces_value [OF assms(1,2,3)] Let_def c_def by simp
  have t: "float_nPieces e n R P minN maxN =
      min (int P) (case maxN of Some m \<Rightarrow> if m \<noteq> 0 then min (max minN c) m else max minN c
             | None \<Rightarrow> max minN c)"
    unfolding float_nPieces_def Let_def c_def by simp
  show ?thesis
    unfolding s t by (cases maxN) (auto simp add: min_def max_def)
qed

text \<open>
  Where the three float operations are exact on the numbers at hand, the number of pieces
  is the one of the specification with the cap applied for a \<open>maxNPieces\<close> that is not
  zero: for \<open>n\<close> above the row count both numbers are at least \<open>P\<close> before the cap.
\<close>

lemma float_nPieces_exact:
  assumes "0 < R" and "0 \<le> n"
    and "fdiv e (real_of_int (min n (int R))) (real R) = real_of_int (min n (int R)) / real R"
    and "fpow e (real_of_int (min n (int R)) / real R) (1 / 2) =
           sqrt (real_of_int (min n (int R)) / real R)"
    and "fmul e (sqrt (real_of_int (min n (int R)) / real R)) (real P) =
           sqrt (real_of_int (min n (int R)) / real R) * real P"
  shows "float_nPieces e n R P minN maxN = spec_nPieces_nonzero_cap n R P minN maxN"
proof -
  define c where "c = \<lceil>sqrt (real_of_int (min n (int R)) / real R) * real P\<rceil>"
  define d where "d = \<lceil>sqrt (real_of_int n / real R) * real P\<rceil>"
  have s: "float_nPieces e n R P minN maxN =
      min (int P) (case maxN of Some m \<Rightarrow> if m \<noteq> 0 then min (max minN c) m else max minN c
             | None \<Rightarrow> max minN c)"
    unfolding float_nPieces_def Let_def c_def assms(3) assms(4) assms(5) by simp
  have t: "spec_nPieces_nonzero_cap n R P minN maxN =
      min (int P) (case maxN of Some m \<Rightarrow> if m \<noteq> 0 then min (max minN d) m else max minN d
             | None \<Rightarrow> max minN d)"
    unfolding spec_nPieces_nonzero_cap_def Let_def d_def by simp
  have rel: "c = d \<or> (int P \<le> c \<and> int P \<le> d)"
  proof (cases "n \<le> int R")
    case True
    then have "min n (int R) = n" by simp
    then show ?thesis
      unfolding c_def d_def by simp
  next
    case False
    then have gt: "int R < n" by simp
    then have "min n (int R) = int R" by simp
    then have q1: "real_of_int (min n (int R)) / real R = 1"
      using assms(1) by simp
    have "int P \<le> c"
      unfolding c_def q1 by simp
    moreover have "int P \<le> d"
      unfolding d_def using gt assms(1) by (rule ceil_sqrt_ge)
    ultimately show ?thesis by simp
  qed
  show ?thesis
    unfolding s t using rel by (cases maxN) (auto simp add: min_def max_def)
qed

text \<open>
  Where the float that the code rounds up is less than one away from the exact product,
  the number of pieces is at most one away from that of the specification.
\<close>

lemma ceiling_near:
  fixes x y :: real
  assumes "\<bar>x - y\<bar> < 1"
  shows "\<bar>\<lceil>x\<rceil> - \<lceil>y\<rceil>\<bar> \<le> 1"
proof -
  have x: "of_int \<lceil>x\<rceil> - 1 < x" "x \<le> of_int \<lceil>x\<rceil>"
    using ceiling_correct [of x] by simp_all
  have y: "of_int \<lceil>y\<rceil> - 1 < y" "y \<le> of_int \<lceil>y\<rceil>"
    using ceiling_correct [of y] by simp_all
  have "real_of_int \<lceil>x\<rceil> < real_of_int \<lceil>y\<rceil> + 2"
    using x y assms by linarith
  then have a: "\<lceil>x\<rceil> < \<lceil>y\<rceil> + 2"
    by linarith
  have "real_of_int \<lceil>y\<rceil> < real_of_int \<lceil>x\<rceil> + 2"
    using x y assms by linarith
  then have b: "\<lceil>y\<rceil> < \<lceil>x\<rceil> + 2"
    by linarith
  from a b show ?thesis
    by linarith
qed

lemma float_nPieces_near:
  assumes "0 < R" and "0 \<le> n"
    and "\<bar>fmul e (fpow e (fdiv e (real_of_int (min n (int R))) (real R)) (1 / 2)) (real P) -
          sqrt (real_of_int (min n (int R)) / real R) * real P\<bar> < 1"
  shows "\<bar>float_nPieces e n R P minN maxN - spec_nPieces_nonzero_cap n R P minN maxN\<bar> \<le> 1"
proof -
  define c where
    "c = \<lceil>fmul e (fpow e (fdiv e (real_of_int (min n (int R))) (real R)) (1 / 2)) (real P)\<rceil>"
  define c0 where "c0 = \<lceil>sqrt (real_of_int (min n (int R)) / real R) * real P\<rceil>"
  define d where "d = \<lceil>sqrt (real_of_int n / real R) * real P\<rceil>"
  have near: "\<bar>c - c0\<bar> \<le> 1"
    unfolding c_def c0_def using assms(3) by (rule ceiling_near)
  have s: "float_nPieces e n R P minN maxN =
      min (int P) (case maxN of Some m \<Rightarrow> if m \<noteq> 0 then min (max minN c) m else max minN c
             | None \<Rightarrow> max minN c)"
    unfolding float_nPieces_def Let_def c_def by simp
  have t: "spec_nPieces_nonzero_cap n R P minN maxN =
      min (int P) (case maxN of Some m \<Rightarrow> if m \<noteq> 0 then min (max minN d) m else max minN d
             | None \<Rightarrow> max minN d)"
    unfolding spec_nPieces_nonzero_cap_def Let_def d_def by simp
  have rel: "c0 = d \<or> (int P \<le> c0 \<and> int P \<le> d)"
  proof (cases "n \<le> int R")
    case True
    then have "min n (int R) = n" by simp
    then show ?thesis
      unfolding c0_def d_def by simp
  next
    case False
    then have gt: "int R < n" by simp
    then have "min n (int R) = int R" by simp
    then have q1: "real_of_int (min n (int R)) / real R = 1"
      using assms(1) by simp
    have "int P \<le> c0"
      unfolding c0_def q1 by simp
    moreover have "int P \<le> d"
      unfolding d_def using gt assms(1) by (rule ceil_sqrt_ge)
    ultimately show ?thesis by simp
  qed
  show ?thesis
    unfolding s t using rel near by (cases maxN) (auto simp add: min_def max_def)
qed

lemma sample_loop_touches:
  "length (fst (sample_loop body ps)) + length (snd (sample_loop body ps)) = length ps"
  by (induction ps) (auto split: prod.splits sum.splits)

text \<open>
  C1, as amended. For a dataset with rows, a sample size that is not negative and a
  \<open>maxNPieces\<close> that is absent or not negative, a random sampler that returns as many
  elements as asked for, and float operations that give nothing negative from operands
  that are not negative, \<open>sample\<close> chooses and then attempts exactly
  \<open>max(minNPieces, ceil(x))\<close> pieces, capped by \<open>maxNPieces\<close> when that is given and not
  zero, and by \<open>P\<close>, where \<open>x\<close> is the float that the code computes for
  \<open>sqrt(min(n, R)/R) * P\<close>: the float quotient, its float power \<open>0.5\<close>, and the float
  product with \<open>P\<close>.
\<close>

theorem sample_touches_capped_pieces:
  assumes "handle_ok h"
    and "0 < nRows e h"
    and "0 \<le> n"
    and "\<forall>m. maxN = Some m \<longrightarrow> 0 \<le> m"
    and "\<forall>pop k. k \<le> length pop \<longrightarrow> length (random_sample e pop k) = k"
    and "floats_keep_sign e"
  shows "\<exists>s ps. chosen_pieces e h n minN maxN = Inr (s, ps) \<and>
           int (length ps) = float_nPieces e n (nRows e h) (nPieces (meta h)) minN maxN \<and>
           (\<forall>body. length (fst (sample_loop body ps)) + length (snd (sample_loop body ps)) =
                     length ps)"
proof -
  let ?P = "nPieces (meta h)"
  from sampleNPieces_value [OF assms(6,2,3)]
  obtain s where s: "sampleNPieces e n (nRows e h) ?P minN maxN = Inr s"
    by blast
  have nonneg: "0 \<le> s"
    using assms(6,2,3,4) s by (rule sampleNPieces_nonneg)
  have len: "length (pieceSubPaths (meta h)) = ?P"
    using assms(1) by (simp add: handle_ok_def)
  obtain ps where ps: "samplePieceSubPaths e h s = Inr ps"
    and l: "int (length ps) = min (int ?P) s"
  proof (cases "s < int ?P")
    case True
    then have k: "nat s \<le> length (pieceSubPaths (meta h))"
      using len by simp
    then have "length (random_sample e (pieceSubPaths (meta h)) (nat s)) = nat s"
      using assms(5) by blast
    then show ?thesis
      using True nonneg k that by (simp add: samplePieceSubPaths_def)
  next
    case False
    then show ?thesis
      using len that by (simp add: samplePieceSubPaths_def)
  qed
  have c: "chosen_pieces e h n minN maxN = Inr (s, ps)"
    using s ps by (simp add: chosen_pieces_def)
  have "min (int ?P) s = float_nPieces e n (nRows e h) ?P minN maxN"
    using assms(6,2,3) s by (rule capped_by_nPieces)
  with c l show ?thesis
    by (simp add: sample_loop_touches)
qed

lemma demo_nRows: "nRows demo_env demo_handle = 100"
  by (simp add: nRows_def demo_handle_def)

lemma demo_nPieces: "nPieces (meta demo_handle) = 4"
  by (simp add: demo_handle_def demo_meta_def)

lemma demo_random_sample:
  "\<forall>pop k. k \<le> length pop \<longrightarrow> length (random_sample demo_env pop k) = k"
  by (simp add: demo_env_def)

lemma demo_floats_keep_sign: "floats_keep_sign demo_env"
  by (simp add: floats_keep_sign_def demo_env_def)

lemma demo_float_nPieces: "float_nPieces demo_env 25 100 4 1 (Some 0) = 2"
  by (simp add: float_nPieces_def demo_env_def real_sqrt_divide)

text \<open>
  On the example dataset (four pieces, 100 rows) a sample of 25 rows with \<open>minNPieces = 1\<close>
  and \<open>maxNPieces = 0\<close> touches two pieces: the zero does not cap. The quotient 0.25, its
  root 0.5 and the product 2 are floats, so the example's exact arithmetic is that of the
  floats here.
\<close>

theorem sample_touches_capped_pieces_witness:
  "\<exists>s ps. chosen_pieces demo_env demo_handle 25 1 (Some 0) = Inr (s, ps) \<and>
          int (length ps) = 2"
proof -
  have r: "0 < nRows demo_env demo_handle"
    by (simp add: demo_nRows)
  have n: "(0::int) \<le> 25"
    by simp
  have m: "\<forall>m. Some (0::int) = Some m \<longrightarrow> 0 \<le> m"
    by simp
  have v: "float_nPieces demo_env 25 (nRows demo_env demo_handle)
      (nPieces (meta demo_handle)) 1 (Some 0) = 2"
    by (simp add: demo_nRows demo_nPieces demo_float_nPieces)
  from sample_touches_capped_pieces [OF demo_handle_ok r n m demo_random_sample
      demo_floats_keep_sign, of 1]
  show ?thesis
    unfolding v by blast
qed

text \<open>
  C1 as stated fails there: capped by a \<open>maxNPieces\<close> of zero the number would be zero,
  and the code reads two pieces.
\<close>

theorem sample_maxNPieces_zero_counterexample:
  "chosen_pieces demo_env demo_handle 25 1 (Some 0) =
     Inr (2, [''date=2018-01-01/part-0.parquet'', ''date=2018-01-02/part-0.parquet'']) \<and>
   spec_nPieces 25 (nRows demo_env demo_handle) (nPieces (meta demo_handle)) 1 (Some 0) = 0"
proof -
  have s: "sampleNPieces demo_env 25 100 4 1 (Some 0) = Inr 2"
    by (simp add: sampleNPieces_def demo_env_def real_sqrt_divide)
  have c: "chosen_pieces demo_env demo_handle 25 1 (Some 0) =
     Inr (2, [''date=2018-01-01/part-0.parquet'', ''date=2018-01-02/part-0.parquet''])"
    by (simp add: chosen_pieces_def demo_nRows demo_nPieces s samplePieceSubPaths_def)
      (simp add: demo_handle_def demo_meta_def demo_subPaths_def demo_env_def)
  have v: "spec_nPieces 25 (nRows demo_env demo_handle) (nPieces (meta demo_handle)) 1 (Some 0) = 0"
    by (simp add: demo_nRows demo_nPieces spec_nPieces_def real_sqrt_divide)
  from c v show ?thesis by (rule conjI)
qed

text \<open>
  The rounding of the float operations shows on the dataset of 35 pieces and 49 rows, for
  a sample of 9 rows. The three numbers of the engine \<open>f64_env\<close> are doubles, each within
  half a unit in the last place of the exact result, so they are what correctly rounded
  double-precision operations give. The exact product \<open>sqrt(9/49) * 35\<close> is 15 and the
  specification's number of pieces is 15; the float product is a little above 15 and the
  code reads 16 pieces.
\<close>

lemma f64_quotient_nearest:
  "\<bar>6617534146340321 / 2 ^ 55 - 9 / (49::real)\<bar> \<le> 1 / 2 ^ 56"
  by simp

lemma f64_root_nearest:
  "\<bar>1930114126015927 / 2 ^ 52 - sqrt (6617534146340321 / 2 ^ 55)\<bar> \<le> 1 / 2 ^ 55"
proof -
  have lo: "(1930114126015927 / 2 ^ 52 - 1 / 2 ^ 55)\<^sup>2 \<le> (6617534146340321 / 2 ^ 55 :: real)"
    by (simp add: power2_eq_square)
  have hi: "(6617534146340321 / 2 ^ 55 :: real) \<le> (1930114126015927 / 2 ^ 52 + 1 / 2 ^ 55)\<^sup>2"
    by (simp add: power2_eq_square)
  have "1930114126015927 / 2 ^ 52 - 1 / 2 ^ 55 \<le> sqrt (6617534146340321 / 2 ^ 55)"
    using lo by (rule real_le_rsqrt)
  moreover have "sqrt (6617534146340321 / 2 ^ 55) \<le> 1930114126015927 / 2 ^ 52 + 1 / 2 ^ 55"
    using hi by (intro real_le_lsqrt) simp_all
  ultimately show ?thesis
    by linarith
qed

lemma f64_product_nearest:
  "\<bar>8444249301319681 / 2 ^ 49 - 1930114126015927 / 2 ^ 52 * (35::real)\<bar> \<le> 1 / 2 ^ 50"
  by simp

lemma sample_float_rounding_example:
  "chosen_pieces f64_env wide_handle 9 1 None =
     Inr (16, take 16 (pieceSubPaths (meta wide_handle))) \<and>
   spec_nPieces 9 (nRows f64_env wide_handle) (nPieces (meta wide_handle)) 1 None = 15"
proof -
  have r: "nRows f64_env wide_handle = 49" and p: "nPieces (meta wide_handle) = 35"
    by (simp_all add: nRows_def wide_handle_def)
  have c: "\<lceil>8444249301319681 / 2 ^ 49 :: real\<rceil> = 16"
    by (simp add: ceiling_eq_iff)
  have s: "sampleNPieces f64_env 9 49 35 1 None = Inr 16"
    by (simp add: sampleNPieces_def f64_env_def c)
  have l: "length (pieceSubPaths (meta wide_handle)) = 35"
    by (simp add: wide_handle_def wide_subPaths_def)
  have t: "random_sample f64_env (pieceSubPaths (meta wide_handle)) 16 =
      take 16 (pieceSubPaths (meta wide_handle))"
    by (simp add: f64_env_def demo_env_def)
  have a: "chosen_pieces f64_env wide_handle 9 1 None =
      Inr (16, take 16 (pieceSubPaths (meta wide_handle)))"
    by (simp add: chosen_pieces_def r p s samplePieceSubPaths_def l t)
  have root: "sqrt (9 / 49 :: real) = 3 / 7"
    by (rule real_sqrt_unique) (simp_all add: power2_eq_square)
  have b: "spec_nPieces 9 (nRows f64_env wide_handle) (nPieces (meta wide_handle)) 1 None = 15"
    by (simp add: r p spec_nPieces_def root)
  from a b show ?thesis
    by (rule conjI)
qed
lemma sample_loop_outcome:
  "sample_loop body ps = (succeeded body ps, failed body ps)"
  by (induction ps) (auto simp add: succeeded_def failed_def split: sum.splits)

text \<open>
  C6, as amended. When at least one of the chosen pieces is read, \<open>sample\<close> does not raise
  for the pieces that fail: each failure is printed with its sub-path, and the call returns
  what \<open>unionAllCols\<close> makes of the sub-samples of the pieces that succeeded.
\<close>

theorem sample_tolerates_partial_failure:
  assumes "chosen_pieces e h n minN maxN = Inr (s, ps)"
    and "succeeded (piece_body e piece_sample n s) ps \<noteq> []"
  shows "sample e h piece_sample unionAllCols (Some n) (Some minN) maxN =
           (unionAllCols (succeeded (piece_body e piece_sample n s) ps),
            failed (piece_body e piece_sample n s) ps)"
  using assms by (simp add: sample_def sample_loop_outcome split: sum.splits)

text \<open>
  When every chosen piece fails, the failures are printed all the same and the call then
  raises: whatever \<open>unionAllCols\<close> makes of no frames, reading \<open>adfs[0]\<close> fails.
\<close>

lemma sample_all_failed_raises:
  assumes "chosen_pieces e h n minN maxN = Inr (s, ps)"
    and "succeeded (piece_body e piece_sample n s) ps = []"
  shows "\<exists>err. sample e h piece_sample unionAllCols (Some n) (Some minN) maxN =
           (Inl err, failed (piece_body e piece_sample n s) ps)"
  using assms by (simp add: sample_def sample_loop_outcome split: sum.splits)

lemma demo_chosen:
  "chosen_pieces demo_env demo_handle 25 1 None =
     Inr (2, [''date=2018-01-01/part-0.parquet'', ''date=2018-01-02/part-0.parquet''])"
proof -
  have s: "sampleNPieces demo_env 25 100 4 1 None = Inr 2"
    by (simp add: sampleNPieces_def demo_env_def real_sqrt_divide)
  show ?thesis
    by (simp add: chosen_pieces_def demo_nRows demo_nPieces s samplePieceSubPaths_def)
      (simp add: demo_handle_def demo_meta_def demo_subPaths_def demo_env_def)
qed

text \<open>
  On the example dataset, with the first of the two chosen pieces unreadable, the sample is
  the sub-sample of the second and the failure of the first is printed.
\<close>

theorem sample_tolerates_partial_failure_witness:
  "sample demo_env demo_handle
     (\<lambda>p k. if p = ''date=2018-01-01/part-0.parquet'' then Inl (EngineError ''unreadable'')
            else Inr [p])
     (\<lambda>adfs. Inr (concat adfs)) (Some 25) (Some 1) None =
   (Inr [''date=2018-01-02/part-0.parquet''],
    [(''date=2018-01-01/part-0.parquet'', EngineError ''unreadable'')])"
proof -
  let ?read = "\<lambda>(p::string) (k::real).
      if p = ''date=2018-01-01/part-0.parquet'' then Inl (EngineError ''unreadable'')
      else (Inr [p] :: error + string list)"
  let ?ps = "[''date=2018-01-01/part-0.parquet'', ''date=2018-01-02/part-0.parquet'']"
  have ok: "succeeded (piece_body demo_env ?read 25 2) ?ps = [[''date=2018-01-02/part-0.parquet'']]"
    by (simp add: succeeded_def piece_body_def)
  have bad: "failed (piece_body demo_env ?read 25 2) ?ps =
      [(''date=2018-01-01/part-0.parquet'', EngineError ''unreadable'')]"
    by (simp add: failed_def piece_body_def)
  have ne: "succeeded (piece_body demo_env ?read 25 2) ?ps \<noteq> []"
    by (simp add: ok)
  from sample_tolerates_partial_failure [OF demo_chosen ne, of "\<lambda>adfs. Inr (concat adfs)"]
  show ?thesis
    by (simp add: ok bad)
qed

text \<open>
  C6 as stated fails when no chosen piece can be read: both failures are caught and
  printed, and the call then raises instead of returning a sample.
\<close>

theorem sample_all_pieces_fail_counterexample:
  "sample demo_env demo_handle
     (\<lambda>p k. (Inl (EngineError ''unreadable'') :: error + string list))
     (\<lambda>adfs. Inr (concat adfs)) (Some 25) (Some 1) None =
   (Inl IndexError,
    [(''date=2018-01-01/part-0.parquet'', EngineError ''unreadable''),
     (''date=2018-01-02/part-0.parquet'', EngineError ''unreadable'')])"
  by (simp add: sample_def demo_chosen piece_body_def)

section \<open>Transform application: proofs\<close>

text \<open>What a successful construction stores in the new handle.\<close>

lemma init_from_entry_fields:
  assumes "init_from_entry e a ce = Inr h'"
  shows "sparkDFTransforms h' = a_sparkDFTransforms a"
    and "pandasDFTransforms h' = a_pandasDFTransforms a"
    and "meta h' = ce"
  using assms
  by (auto simp add: init_from_entry_def Let_def split: if_splits sum.splits prod.splits)

lemma init_from_entry_given_frame:
  assumes "init_from_entry e a ce = Inr h'"
    and "a_initSparkDF a = Some d0"
    and "a_sparkDF a = Some d"
    and "a_nRows a = Some r"
  shows "sparkDF h' = d" and "c_nRows (cache h') = r"
  using assms
  by (auto simp add: init_from_entry_def Let_def split: if_splits sum.splits prod.splits)


lemma init_registered:
  assumes "CACHE w (a_path a) = Some (Loaded ce)" and "\<not> a_reCache a"
  shows "init e a w = (init_from_entry e a ce, w)"
  using assms by (simp add: init_def)

lemma init_chains:
  assumes "init e a w = (Inr h', w')"
  shows "sparkDFTransforms h' = a_sparkDFTransforms a"
    and "pandasDFTransforms h' = a_pandasDFTransforms a"
proof -
  from assms obtain ce where "init_from_entry e a ce = Inr h'"
    by (auto simp add: init_def Let_def split: cache_state.splits discovery.splits
        option.splits if_splits)
  then show "sparkDFTransforms h' = a_sparkDFTransforms a"
    and "pandasDFTransforms h' = a_pandasDFTransforms a"
    by (simp_all add: init_from_entry_fields)
qed


text \<open>
  A successful \<open>transform\<close>: the frame it settled on, the handle the constructor built,
  and the handle returned, which differs from it in the cache only.
\<close>

lemma transform_Inr:
  fixes targ :: spark_arg and parg :: pandas_arg and ic :: "bool option" and inr :: "bool option"
  defines "ts \<equiv> (case targ of TList ts \<Rightarrow> ts | TOne t \<Rightarrow> [t])"
    and "ps \<equiv> (case parg of PList ps \<Rightarrow> ps | POne p \<Rightarrow> [p])"
  defines "inh \<equiv> (case targ of
                      TList ts \<Rightarrow> (case ic of Some b \<Rightarrow> b | None \<Rightarrow> False) \<or>
                                  list_all is_Transformer ts
                    | TOne t \<Rightarrow> if is_Transformer t then True
                                else (case ic of Some b \<Rightarrow> b | None \<Rightarrow> False))"
  defines "inrows \<equiv> (case inr of Some b \<Rightarrow> b | None \<Rightarrow> inh)"
  assumes "transform e h targ sdf parg ic inr al w = (Inr h', w')"
  shows "\<exists>d arrowDDF.
           (case sdf of Some d \<Rightarrow> Inr d | None \<Rightarrow> apply_transforms e ts (sparkDF h)) = Inr d \<and>
           init e (transform_args h ts ps d inrows al) w = (Inr arrowDDF, w') \<and>
           h' = arrowDDF\<lparr>cache :=
                  (if inh then inherit_cache e (cache arrowDDF) (cache h) else cache arrowDDF)
                  \<lparr>c_rest :=
                     share_pieceADFs e
                       (c_rest (if inh then inherit_cache e (cache arrowDDF) (cache h)
                                else cache arrowDDF))
                       (c_rest (cache h))\<rparr>\<rparr>"
proof (cases "case sdf of Some d \<Rightarrow> Inr d | None \<Rightarrow> apply_transforms e ts (sparkDF h)")
  case (Inl err)
  with assms(5) show ?thesis
    unfolding transform_def Let_def ts_def by simp
next
  case (Inr d)
  show ?thesis
  proof (cases "init e (transform_args h ts ps d inrows al) w")
    case (Pair r w1)
    show ?thesis
    proof (cases r)
      case (Inl err)
      with assms(5) Inr Pair show ?thesis
        unfolding transform_def Let_def ts_def ps_def inh_def inrows_def by simp
    next
      case (Inr arrowDDF)
      with assms(5) \<open>(case sdf of Some d \<Rightarrow> Inr d | None \<Rightarrow> apply_transforms e ts (sparkDF h)) = Inr d\<close>
        Pair show ?thesis
        unfolding transform_def Let_def ts_def ps_def inh_def inrows_def by auto
    qed
  qed
qed









lemma sql_self:
  "fst (snd (sql e h query tempAlias ic inr al w)) = h"
  unfolding sql_def Let_def by (auto split: sum.splits prod.splits)












lemma demo_registered: "CACHE demo_world (path demo_handle) = Some (Loaded (meta demo_handle))"
  by (simp add: demo_world_def demo_handle_def)






lemma demo_init_transform:
  "init demo_env (transform_args demo_handle ts ps d b None) demo_world =
     (init_from_entry demo_env (transform_args demo_handle ts ps d b None) (meta demo_handle),
      demo_world)"
  by (rule init_registered) (simp_all add: transform_args_def demo_registered)

lemma demo_init_transform_Inr:
  "\<exists>h'. init demo_env (transform_args demo_handle ts ps d b None) demo_world =
     (Inr h', demo_world)"
  unfolding demo_init_transform
  by (simp add: transform_args_def init_from_entry_def)

section \<open>Selecting every column: proofs\<close>

lemma init_Inr_entry:
  assumes "init e a w = (Inr h', w')"
  shows "\<exists>ce. init_from_entry e a ce = Inr h'"
  using assms
  by (auto simp add: init_def Let_def split: cache_state.splits discovery.splits
      option.splits if_splits)

text \<open>
  A successful \<open>transform\<close> by one operation with cache and row count inherited: the new
  frame is the engine's result on the current frame, and the new cache is what
  \<open>_inheritCache\<close> makes of a cache that already holds the original's row count.
\<close>

lemma transform_inherit_result:
  assumes "transform e h (TOne t) None parg (Some True) (Some True) al w = (Inr h', w')"
  shows "\<exists>d c0. spark_apply e t (sparkDF h) = Inr d \<and> sparkDF h' = d \<and>
           c_nRows c0 = c_nRows (cache h) \<and>
           c_nRows (cache h') = c_nRows (inherit_cache e c0 (cache h))"
proof -
  from transform_Inr [OF assms] obtain d arrowDDF where
    f: "apply_transforms e [t] (sparkDF h) = Inr d"
    and i: "init e (transform_args h [t] (case parg of PList ps \<Rightarrow> ps | POne p \<Rightarrow> [p]) d True al) w =
      (Inr arrowDDF, w')"
    and h': "h' = arrowDDF\<lparr>cache := (inherit_cache e (cache arrowDDF) (cache h))
      \<lparr>c_rest := share_pieceADFs e (c_rest (inherit_cache e (cache arrowDDF) (cache h)))
         (c_rest (cache h))\<rparr>\<rparr>"
    by auto
  from init_Inr_entry [OF i] obtain ce where
    ce: "init_from_entry e (transform_args h [t] (case parg of PList ps \<Rightarrow> ps | POne p \<Rightarrow> [p])
      d True al) ce = Inr arrowDDF"
    by blast
  have a: "sparkDF arrowDDF = d" "c_nRows (cache arrowDDF) = c_nRows (cache h)"
    using init_from_entry_given_frame [OF ce] by (simp_all add: transform_args_def)
  have "spark_apply e t (sparkDF h) = Inr d"
    using f by (simp split: sum.splits)
  moreover have "sparkDF h' = d"
    using h' a(1) by simp
  moreover have "c_nRows (cache h') = c_nRows (inherit_cache e (cache arrowDDF) (cache h))"
    using h' by simp
  ultimately show ?thesis
    using a(2) by blast
qed

text \<open>
  C8. Let the engine's \<open>selectExpr('*')\<close> keep the schema and the row count of a frame,
  and let \<open>_inheritCache\<close> keep a cached row count that both caches agree on. Then
  \<open>select('*')\<close>, and \<open>select()\<close> which stands for it, yields a handle with the row count
  and the schema of the original.
\<close>

theorem select_star_keeps_rows_and_schema:
  assumes "\<forall>d d'. spark_apply e (SelectExpr [''*'']) d = Inr d' \<longrightarrow>
             spark_dtypes e d' = spark_dtypes e d \<and> spark_count e d' = spark_count e d"
    and "\<forall>c c'. c_nRows c = c_nRows c' \<longrightarrow> c_nRows (inherit_cache e c c') = c_nRows c'"
    and "exprs = [] \<or> exprs = [StrExpr ''*'']"
    and "select e h exprs None None al w = (Inr h', w')"
  shows "nRows e h' = nRows e h \<and> dtypes e h' = dtypes e h"
proof -
  have "transform e h (TOne (SelectExpr [''*''])) None (PList []) (Some True) (Some True) al w =
      (Inr h', w')"
    using assms(3,4) by (auto simp add: select_def select_op_def Let_def)
  from transform_inherit_result [OF this] obtain d c0 where
    d: "spark_apply e (SelectExpr [''*'']) (sparkDF h) = Inr d"
    and f: "sparkDF h' = d"
    and c0: "c_nRows c0 = c_nRows (cache h)"
    and c: "c_nRows (cache h') = c_nRows (inherit_cache e c0 (cache h))"
    by blast
  from assms(1) d have same: "spark_dtypes e d = spark_dtypes e (sparkDF h)"
    "spark_count e d = spark_count e (sparkDF h)"
    by blast+
  from assms(2) c0 c have "c_nRows (cache h') = c_nRows (cache h)"
    by simp
  with f same show ?thesis
    by (simp add: nRows_def dtypes_def split: option.splits)
qed

lemma demo_select_returns:
  "\<exists>h'. select demo_env demo_handle [StrExpr ''*''] None None None demo_world =
     (Inr h', demo_world)"
proof -
  have f: "spark_apply demo_env (SelectExpr [''*'']) (sparkDF demo_handle) = Inr demo_df"
    by (simp add: demo_env_def demo_handle_def)
  from demo_init_transform_Inr obtain a where "init demo_env (transform_args demo_handle [SelectExpr [''*'']] []
      demo_df True None) demo_world = (Inr a, demo_world)"
    by blast
  then show ?thesis
    by (simp add: select_def select_op_def transform_def Let_def f)
qed

text \<open>
  On the example dataset \<open>select('*')\<close> returns a handle with 100 rows and the two
  columns of the original.
\<close>

theorem select_star_keeps_rows_and_schema_witness:
  "\<exists>h'. select demo_env demo_handle [StrExpr ''*''] None None None demo_world =
          (Inr h', demo_world) \<and>
        nRows demo_env h' = 100 \<and>
        dtypes demo_env h' = [(''id'', ''string''), (''x'', ''double'')]"
proof -
  from demo_select_returns obtain h' where
    r: "select demo_env demo_handle [StrExpr ''*''] None None None demo_world =
      (Inr h', demo_world)"
    by blast
  have eng: "\<forall>d d'. spark_apply demo_env (SelectExpr [''*'']) d = Inr d' \<longrightarrow>
      spark_dtypes demo_env d' = spark_dtypes demo_env d \<and>
      spark_count demo_env d' = spark_count demo_env d"
    by (simp add: demo_env_def)
  have inh: "\<forall>c c'. c_nRows c = c_nRows c' \<longrightarrow>
      c_nRows (inherit_cache demo_env c c') = c_nRows c'"
    by (simp add: demo_env_def split: option.splits)
  have ex: "[StrExpr ''*''] = [] \<or> [StrExpr ''*''] = [StrExpr ''*'']"
    by simp
  have dt: "dtypes demo_env demo_handle = [(''id'', ''string''), (''x'', ''double'')]"
    by (simp add: dtypes_def demo_handle_def demo_df_def demo_env_def)
  from select_star_keeps_rows_and_schema [OF eng inh ex r]
  have "nRows demo_env h' = 100 \<and>
      dtypes demo_env h' = [(''id'', ''string''), (''x'', ''double'')]"
    by (simp add: demo_nRows dt)
  with r show ?thesis by blast
qed

section \<open>Splitting: proofs\<close>

lemma do_subset_empty: "do_subset e h [] al w = (Inr h, w)"
  by (simp add: do_subset_def)

lemma demo_cumuIndices: "cumuIndices demo_env [1, 99] 4 = [0, 0, 4]"
  by (simp add: cumuIndices_def cumuWeights_def demo_env_def py_round_def Let_def)

lemma demo_split_slices:
  "split_slices demo_env (random_shuffle demo_env (pieceSubPaths (meta demo_handle))) [1, 99]
     (nPieces (meta demo_handle)) = [[], pieceSubPaths (meta demo_handle)]"
proof -
  have n: "nPieces (meta demo_handle) = 4"
    by (simp add: demo_handle_def demo_meta_def)
  have s: "random_shuffle demo_env (pieceSubPaths (meta demo_handle)) =
      pieceSubPaths (meta demo_handle)"
    by (simp add: demo_env_def)
  have l: "length (pieceSubPaths (meta demo_handle)) = 4"
    by (simp add: demo_handle_def demo_meta_def demo_subPaths_def)
  show ?thesis
    unfolding n s split_slices_def demo_cumuIndices
    by (simp add: py_slice_def slice_bound_def l upt_rec)
qed

text \<open>
  C5 fails on the example dataset with the weights 1 and 99. The cumulative indices are
  0, 0 and 4, so the first slice of the shuffled sub-paths is empty and the second holds
  all four. \<open>_subset\<close> called without sub-paths returns the handle itself, and so does
  \<open>_subset\<close> called with all of them: \<open>split\<close> returns the original handle twice, two
  handles over the same four partitions.
\<close>

theorem split_empty_slice_returns_whole_handle:
  "split demo_env demo_handle [1, 99] demo_world =
     (Inr (SplitList [demo_handle, demo_handle]), demo_world)"
proof -
  have all: "do_subset demo_env demo_handle (pieceSubPaths (meta demo_handle)) None demo_world =
      (Inr demo_handle, demo_world)"
    using demo_handle_ok by (rule do_subset_all)
  have "subset_each demo_env demo_handle [[], pieceSubPaths (meta demo_handle)] demo_world =
      (Inr [demo_handle, demo_handle], demo_world)"
    by (simp add: do_subset_empty all)
  moreover have "fsum demo_env [1, 99] = 100"
    by (simp add: demo_env_def)
  ultimately show ?thesis
    by (simp add: split_def demo_split_slices)
qed

section \<open>Construction: what the hypotheses of the theorems rest on\<close>

text \<open>
  Discovery yields metadata in which \<open>nPieces\<close> counts distinct sub-paths, provided the
  file reader lists pieces whose paths differ below the dataset path.
\<close>

lemma discover_pieces_counted:
  assumes "discover e cps p = Discovered ce"
    and "arrow_pieces e cps p = Inr pieces"
    and "distinct (map (drop (length p + 1)) pieces)"
  shows "nPieces ce = length (pieceSubPaths ce) \<and> distinct (pieceSubPaths ce) \<and>
         pieceSubPaths ce \<noteq> []"
proof -
  from assms(1,2) obtain df n where
    ce: "ce = with_frame (discover_arrow e p pieces) df n"
    by (auto simp add: discover_def Let_def split: sum.splits)
  show ?thesis
  proof (cases "pieces = []")
    case True
    then show ?thesis
      by (simp add: ce with_frame_def discover_arrow_def Let_def)
  next
    case False
    then show ?thesis
      using assms(3) by (simp add: ce with_frame_def discover_arrow_def Let_def distinct_remdups_id)
  qed
qed

lemma init_from_entry_path:
  assumes "init_from_entry e a ce = Inr h"
  shows "path h = (case ce_path ce of Some q \<Rightarrow> q | None \<Rightarrow> a_path a)"
  using assms
  by (auto simp add: init_from_entry_def Let_def split: if_splits sum.splits prod.splits)

text \<open>
  After a successful construction the registry holds the new handle's metadata under the
  path it was constructed from, which is the handle's own path unless the dataset was a
  single file.
\<close>

lemma init_registers:
  assumes "init e a w = (Inr h, w')"
  shows "CACHE w' (a_path a) = Some (Loaded (meta h))"
    and "ce_path (meta h) = None \<longrightarrow> path h = a_path a"
proof -
  from assms have "\<exists>ce. init_from_entry e a ce = Inr h \<and> CACHE w' (a_path a) = Some (Loaded ce)"
    by (auto simp add: init_def Let_def split: cache_state.splits discovery.splits
        option.splits if_splits)
  then obtain ce where f: "init_from_entry e a ce = Inr h"
    and c: "CACHE w' (a_path a) = Some (Loaded ce)"
    by blast
  have m: "meta h = ce"
    using f by (rule init_from_entry_fields(3))
  show "CACHE w' (a_path a) = Some (Loaded (meta h))"
    using c m by simp
  show "ce_path (meta h) = None \<longrightarrow> path h = a_path a"
    using init_from_entry_path [OF f] m by simp
qed

end
